theory Spec2Isabelle
  imports Main "HOL-Library.Sublist" "HOL-Library.List_Lexorder" "HOL-Library.Char_ord"
begin

chapter \<open>The logging and monitoring pipeline of index.js\<close>

text \<open>
  A shallow embedding of the event pipeline of \<^verbatim>\<open>src/index.js\<close>: the ring buffer, the
  metrics collector, the alert manager, the rotating file writer and the logger with its
  child composition. Every JavaScript object is a record, every method a function from
  the old state to the new one. JavaScript's \<^verbatim>\<open>undefined\<close> is \<open>None\<close>; the operator
  \<^verbatim>\<open>||\<close> and the conditions \<^verbatim>\<open>if (x)\<close> follow JavaScript's notion of a falsy value
  (\<^verbatim>\<open>undefined\<close>, the empty string, the number 0), which is written out wherever the
  source relies on it. Numbers are integers: instants and durations are whole
  milliseconds, sizes are whole bytes.
\<close>

section \<open>Definitions\<close>

subsection \<open>Strings and numbers of the runtime\<close>

text \<open>\<^verbatim>\<open>String(n)\<close> for a whole number \<open>n \<ge> 0\<close>: its decimal digits.\<close>

definition digit_char :: "nat \<Rightarrow> char" where
  "digit_char d = ''0123456789'' ! d"

fun show_nat :: "nat \<Rightarrow> string" where
  "show_nat n = (if n < 10 then [digit_char n]
                 else show_nat (n div 10) @ [digit_char (n mod 10)])"

declare show_nat.simps [simp del]

text \<open>\<^verbatim>\<open>Array.prototype.join(sep)\<close> on strings.\<close>

fun join :: "string \<Rightarrow> string list \<Rightarrow> string" where
  "join sep [] = []"
| "join sep [x] = x"
| "join sep (x # y # ys) = x @ sep @ join sep (y # ys)"

subsection \<open>Levels and entries (index.js, lines 20-29 and 111-124)\<close>

text \<open>
  \<^verbatim>\<open>LOG_LEVELS[name]\<close> is \<^verbatim>\<open>undefined\<close> for a name that is not one of the eight keys.
  (The properties every JavaScript object inherits, such as \<^verbatim>\<open>constructor\<close>, are not
  level names and are left out: no caller of the library passes them.)
\<close>

definition LOG_LEVELS :: "string \<Rightarrow> int option" where
  "LOG_LEVELS = map_of
     [(''TRACE'', 0), (''DEBUG'', 10), (''INFO'', 20), (''SUCCESS'', 25),
      (''WARN'', 30), (''ERROR'', 40), (''FATAL'', 50), (''SILENT'', 100)]"

text \<open>
  JavaScript's \<^verbatim>\<open>a < b\<close> and \<^verbatim>\<open>a >= b\<close> on numbers that may be \<^verbatim>\<open>undefined\<close>: an
  \<^verbatim>\<open>undefined\<close> operand becomes NaN and every comparison with NaN is false.
\<close>

definition js_lt :: "int option \<Rightarrow> int option \<Rightarrow> bool" where
  "js_lt a b = (case a of None \<Rightarrow> False
                | Some x \<Rightarrow> (case b of None \<Rightarrow> False | Some y \<Rightarrow> x < y))"

definition js_ge :: "int option \<Rightarrow> int option \<Rightarrow> bool" where
  "js_ge a b = (case a of None \<Rightarrow> False
                | Some x \<Rightarrow> (case b of None \<Rightarrow> False | Some y \<Rightarrow> x \<ge> y))"

text \<open>A string that may be \<^verbatim>\<open>undefined\<close> is truthy when it is present and not empty.\<close>

definition truthy_str :: "string option \<Rightarrow> bool" where
  "truthy_str s = (case s of None \<Rightarrow> False | Some v \<Rightarrow> v \<noteq> [])"

text \<open>\<^verbatim>\<open>s || d\<close> on such a string.\<close>

definition str_or :: "string option \<Rightarrow> string \<Rightarrow> string" where
  "str_or s d = (case s of None \<Rightarrow> d | Some v \<Rightarrow> if v = [] then d else v)"

text \<open>
  \<^verbatim>\<open>String.prototype.indexOf\<close>: the first position at which the pattern occurs, -1 when
  it occurs nowhere. The empty pattern occurs at position 0.
\<close>

primrec indexOf_at :: "nat \<Rightarrow> string \<Rightarrow> string \<Rightarrow> int" where
  "indexOf_at i [] pat = (if pat = [] then int i else - 1)"
| "indexOf_at i (c # cs) pat =
     (if prefix pat (c # cs) then int i else indexOf_at (Suc i) cs pat)"

definition indexOf :: "string \<Rightarrow> string \<Rightarrow> int" where
  "indexOf s pat = indexOf_at 0 s pat"

text \<open>
  A log entry. \<^verbatim>\<open>meta\<close> is an opaque payload: the model keeps its JSON text, \<open>None\<close>
  standing for \<^verbatim>\<open>null\<close>.
\<close>

record entry =
  e_timestamp :: string
  e_level :: string
  e_levelCode :: int
  e_pid :: int
  e_hostname :: string
  e_context :: string
  e_message :: string
  e_meta :: "string option"

subsection \<open>RingBuffer (index.js, lines 347-365)\<close>

text \<open>
  \<^verbatim>\<open>_data\<close> grows by \<^verbatim>\<open>Array.push\<close> until it holds \<^verbatim>\<open>_capacity\<close> items; from then on
  \<^verbatim>\<open>_head\<close> is the slot of the oldest item and the next one to be overwritten. The
  capacity is a positive whole number: the two places that build a ring buffer pass
  \<^verbatim>\<open>opts.ringSize || 2000\<close> and \<^verbatim>\<open>extraOpts.ringSize || 500\<close>, so a capacity of 0 never
  arrives (it would make \<^verbatim>\<open>_head\<close> NaN). The indexed store \<^verbatim>\<open>_data[_head] = item\<close> is
  reached only when the array is full; \<open>rb_inv\<close> below shows that \<^verbatim>\<open>_head\<close> is then in
  range, so the store never extends the array.
\<close>

record 'a RingBuffer =
  rb_capacity :: nat
  rb_data :: "'a list"
  rb_head :: nat

definition RingBuffer_new :: "nat \<Rightarrow> 'a RingBuffer" where
  "RingBuffer_new capacity = \<lparr>rb_capacity = capacity, rb_data = [], rb_head = 0\<rparr>"

definition push :: "'a \<Rightarrow> 'a RingBuffer \<Rightarrow> 'a RingBuffer" where
  "push item rb =
     (if length (rb_data rb) < rb_capacity rb
      then rb\<lparr>rb_data := rb_data rb @ [item]\<rparr>
      else rb\<lparr>rb_data := (rb_data rb)[rb_head rb := item],
              rb_head := (rb_head rb + 1) mod rb_capacity rb\<rparr>)"

definition toArray :: "'a RingBuffer \<Rightarrow> 'a list" where
  "toArray rb =
     (if length (rb_data rb) < rb_capacity rb then rb_data rb
      else drop (rb_head rb) (rb_data rb) @ take (rb_head rb) (rb_data rb))"

text \<open>A sequence of pushes, first item first.\<close>

definition push_all :: "'a list \<Rightarrow> 'a RingBuffer \<Rightarrow> 'a RingBuffer" where
  "push_all xs rb = foldl (\<lambda>r x. push x r) rb xs"

text \<open>The states a ring buffer of positive capacity can reach.\<close>

definition rb_inv :: "'a RingBuffer \<Rightarrow> bool" where
  "rb_inv rb \<longleftrightarrow> 1 \<le> rb_capacity rb \<and> length (rb_data rb) \<le> rb_capacity rb \<and>
     (if length (rb_data rb) < rb_capacity rb then rb_head rb = 0
      else rb_head rb < rb_capacity rb)"

subsection \<open>RingBuffer.query (index.js, lines 367-385)\<close>




















subsection \<open>MetricsCollector (index.js, lines 205-258)\<close>

text \<open>
  The four tables are objects used as dictionaries, hence maps. \<^verbatim>\<open>_counts\<close> starts with
  a 0 for each of the eight level names. Gauges and the system figures of \<^verbatim>\<open>snapshot\<close>
  play no part in what follows; \<^verbatim>\<open>snapshot\<close> itself is left out.
\<close>

record MetricsCollector =
  mc_startedAt :: int
  mc_counts :: "string \<rightharpoonup> nat"
  mc_timers :: "string \<rightharpoonup> int"
  mc_gauges :: "string \<rightharpoonup> int"
  mc_histograms :: "string \<rightharpoonup> int list"

definition MetricsCollector_new :: "int \<Rightarrow> MetricsCollector" where
  "MetricsCollector_new now =
     \<lparr>mc_startedAt = now,
      mc_counts = (\<lambda>lvl. case LOG_LEVELS lvl of None \<Rightarrow> None | Some _ \<Rightarrow> Some 0),
      mc_timers = Map.empty, mc_gauges = Map.empty, mc_histograms = Map.empty\<rparr>"

definition incrementLevel :: "string \<Rightarrow> MetricsCollector \<Rightarrow> MetricsCollector" where
  "incrementLevel levelName mc =
     (case mc_counts mc levelName of
        None \<Rightarrow> mc
      | Some c \<Rightarrow> mc\<lparr>mc_counts := (mc_counts mc)(levelName \<mapsto> c + 1)\<rparr>)"

definition startTimer :: "int \<Rightarrow> string \<Rightarrow> MetricsCollector \<Rightarrow> MetricsCollector" where
  "startTimer now name mc = mc\<lparr>mc_timers := (mc_timers mc)(name \<mapsto> now)\<rparr>"

text \<open>
  \<^verbatim>\<open>endTimer\<close> returns the elapsed time, or \<^verbatim>\<open>null\<close> when \<^verbatim>\<open>!this._timers[name]\<close>: no
  start was recorded, or the recorded start is the instant 0.
\<close>

definition endTimer :: "int \<Rightarrow> string \<Rightarrow> MetricsCollector \<Rightarrow> int option \<times> MetricsCollector" where
  "endTimer now name mc =
     (case mc_timers mc name of
        None \<Rightarrow> (None, mc)
      | Some started \<Rightarrow>
          if started = 0 then (None, mc)
          else
            let elapsed = now - started;
                samples = (case mc_histograms mc name of None \<Rightarrow> [] | Some xs \<Rightarrow> xs)
            in (Some elapsed,
                mc\<lparr>mc_timers := (mc_timers mc)(name := None),
                   mc_histograms := (mc_histograms mc)(name \<mapsto> samples @ [elapsed])\<rparr>))"

definition setGauge :: "string \<Rightarrow> int \<Rightarrow> MetricsCollector \<Rightarrow> MetricsCollector" where
  "setGauge name v mc = mc\<lparr>mc_gauges := (mc_gauges mc)(name \<mapsto> v)\<rparr>"

text \<open>
  \<^verbatim>\<open>getTimerStats\<close>. The running minimum and maximum start at \<^verbatim>\<open>Infinity\<close> and
  \<^verbatim>\<open>-Infinity\<close>, so they are numbers extended by the two infinities.
\<close>

datatype jsnum = NegInfinity | Num int | Infinity

fun jsnum_lt :: "jsnum \<Rightarrow> jsnum \<Rightarrow> bool" where
  "jsnum_lt (Num a) (Num b) = (a < b)"
| "jsnum_lt NegInfinity NegInfinity = False"
| "jsnum_lt NegInfinity _ = True"
| "jsnum_lt _ NegInfinity = False"
| "jsnum_lt Infinity _ = False"
| "jsnum_lt _ Infinity = True"

text \<open>The \<^verbatim>\<open>for\<close> loop over the samples: the running sum, minimum and maximum.\<close>

fun stats_loop :: "int list \<Rightarrow> int \<times> jsnum \<times> jsnum \<Rightarrow> int \<times> jsnum \<times> jsnum" where
  "stats_loop [] acc = acc"
| "stats_loop (x # xs) (sm, mn, mx) =
     stats_loop xs
       (sm + x,
        if jsnum_lt (Num x) mn then Num x else mn,
        if jsnum_lt mx (Num x) then Num x else mx)"

text \<open>
  \<^verbatim>\<open>Math.round(sum / n)\<close> rounds to the nearest whole number, a half upwards:
  \<open>\<lfloor>sum / n + 1/2\<rfloor>\<close>. The quotient is taken as the exact rational.
\<close>

definition round_div :: "int \<Rightarrow> nat \<Rightarrow> int" where
  "round_div s n = (2 * s + int n) div (2 * int n)"

text \<open>
  \<^verbatim>\<open>Math.floor(n * 0.95)\<close> and \<^verbatim>\<open>Math.floor(n * 0.99)\<close>, computed on whole numbers.
\<close>

definition index95 :: "nat \<Rightarrow> nat" where
  "index95 n = (n * 95) div 100"

definition index99 :: "nat \<Rightarrow> nat" where
  "index99 n = (n * 99) div 100"

text \<open>
  \<^verbatim>\<open>sorted[i] || max\<close>: the element at index \<open>i\<close>, and \<^verbatim>\<open>max\<close> when that is falsy:
  \<^verbatim>\<open>undefined\<close> (the index is out of range) or the number 0.
\<close>

definition element_or :: "int list \<Rightarrow> nat \<Rightarrow> jsnum \<Rightarrow> jsnum" where
  "element_or srt i mx =
     (if i < length srt then (if srt ! i = 0 then mx else Num (srt ! i)) else mx)"

record timer_stats =
  ts_count :: nat
  ts_min :: jsnum
  ts_max :: jsnum
  ts_avg :: int
  ts_p95 :: jsnum
  ts_p99 :: jsnum

definition getTimerStats :: "string \<Rightarrow> MetricsCollector \<Rightarrow> timer_stats option" where
  "getTimerStats name mc =
     (case mc_histograms mc name of
        None \<Rightarrow> None
      | Some samples \<Rightarrow>
          if samples = [] then None
          else
            (case stats_loop samples (0, Infinity, NegInfinity) of
               (sm, mn, mx) \<Rightarrow>
                 let srt = sort samples
                 in Some \<lparr>ts_count = length samples, ts_min = mn, ts_max = mx,
                           ts_avg = round_div sm (length samples),
                           ts_p95 = element_or srt (index95 (length srt)) mx,
                           ts_p99 = element_or srt (index99 (length srt)) mx\<rparr>))"

text \<open>
  Twenty-one samples of the timer \<^verbatim>\<open>op\<close>: twenty runs that started and ended within
  the same millisecond, and one run of 5 ms.
\<close>

definition samples_mostly_zero :: "int list" where
  "samples_mostly_zero = replicate 20 0 @ [5]"

definition collector_mostly_zero :: MetricsCollector where
  "collector_mostly_zero =
     (MetricsCollector_new 1793577600000)
       \<lparr>mc_histograms := [''op'' \<mapsto> samples_mostly_zero]\<rparr>"

subsection \<open>AlertManager (index.js, lines 309-341)\<close>

text \<open>
  A handler is a function of the application; the model knows it by a number. The
  emitter is the logger the manager was built for: \<open>am_emitter\<close> is the sequence, in
  program order, of the \<^verbatim>\<open>alert\<close> notifications emitted on it and of the handler calls
  made. \<^verbatim>\<open>addRule\<close> is modelled for a call that passes an options object; a call without
  one throws at \<^verbatim>\<open>opts.name\<close>.
\<close>

type_synonym handler = nat

datatype alert_event = AlertEmitted string entry | HandlerInvoked handler entry

record rule_opts =
  o_name :: "string option"
  o_level :: "string option"
  o_messagePattern :: "string option"
  o_cooldownMs :: "int option"
  o_handler :: "handler option"

record alert_rule =
  r_name :: string
  r_level :: string
  r_messagePattern :: "string option"
  r_cooldownMs :: int
  r_handler :: "handler option"

record AlertManager =
  am_emitter :: "alert_event list"
  am_rules :: "alert_rule list"
  am_cooldowns :: "string \<rightharpoonup> int"

definition AlertManager_new :: AlertManager where
  "AlertManager_new = \<lparr>am_emitter = [], am_rules = [], am_cooldowns = Map.empty\<rparr>"

text \<open>
  \<^verbatim>\<open>addRule\<close>: each field is \<^verbatim>\<open>opts.f || default\<close>, so the default also replaces a field
  that is present but falsy: an empty string, a cooldown of 0.
\<close>

definition addRule :: "rule_opts \<Rightarrow> AlertManager \<Rightarrow> AlertManager" where
  "addRule opts am =
     am\<lparr>am_rules := am_rules am @
        [\<lparr>r_name = str_or (o_name opts) (''rule_'' @ show_nat (length (am_rules am))),
          r_level = str_or (o_level opts) ''ERROR'',
          r_messagePattern =
            (if truthy_str (o_messagePattern opts) then o_messagePattern opts else None),
          r_cooldownMs =
            (case o_cooldownMs opts of None \<Rightarrow> 60000
             | Some c \<Rightarrow> if c = 0 then 60000 else c),
          r_handler = o_handler opts\<rparr>]\<rparr>"

text \<open>The first two \<^verbatim>\<open>continue\<close> conditions of \<^verbatim>\<open>evaluate\<close>.\<close>

definition below_rule_level :: "alert_rule \<Rightarrow> entry \<Rightarrow> bool" where
  "below_rule_level rule entry =
     js_lt (LOG_LEVELS (e_level entry)) (LOG_LEVELS (r_level rule))"

definition pattern_missing :: "alert_rule \<Rightarrow> entry \<Rightarrow> bool" where
  "pattern_missing rule entry =
     (case r_messagePattern rule of
        None \<Rightarrow> False
      | Some p \<Rightarrow> p \<noteq> [] \<and> indexOf (e_message entry) p = - 1)"

text \<open>
  \<^verbatim>\<open>_cooldowns\<close> is a plain object, created as \<^verbatim>\<open>{}\<close>: \<open>am_cooldowns\<close> holds its own
  properties, and a name that is not among them is looked up in \<^verbatim>\<open>Object.prototype\<close>,
  which has the twelve properties below.
\<close>

definition object_prototype_keys :: "string list" where
  "object_prototype_keys =
     [''constructor'', ''toString'', ''toLocaleString'', ''valueOf'', ''hasOwnProperty'',
      ''isPrototypeOf'', ''propertyIsEnumerable'', ''__proto__'', ''__defineGetter__'',
      ''__defineSetter__'', ''__lookupGetter__'', ''__lookupSetter__'']"

text \<open>
  \<^verbatim>\<open>self._cooldowns[rule.name] || 0\<close>: the recorded instant; 0 when nothing is found (or
  the instant 0 is); and for an inherited property a function or an object, which is
  truthy and is not a number: \<open>None\<close>.
\<close>

definition lastAt :: "AlertManager \<Rightarrow> string \<Rightarrow> int option" where
  "lastAt am name =
     (case am_cooldowns am name of
        Some t \<Rightarrow> Some t
      | None \<Rightarrow> if name \<in> set object_prototype_keys then None else Some 0)"

text \<open>
  \<^verbatim>\<open>now - lastAt < rule.cooldownMs\<close>: with a \<^verbatim>\<open>lastAt\<close> that is not a number the
  difference is NaN and the comparison false.
\<close>

definition within_cooldown :: "int \<Rightarrow> int option \<Rightarrow> int \<Rightarrow> bool" where
  "within_cooldown now prev cooldownMs =
     (case prev of None \<Rightarrow> False | Some l \<Rightarrow> now - l < cooldownMs)"

text \<open>
  \<^verbatim>\<open>self._cooldowns[rule.name] = now\<close> creates or overwrites an own property, except for
  the name \<^verbatim>\<open>__proto__\<close>: that assignment runs the setter of \<^verbatim>\<open>Object.prototype\<close>, which
  ignores a number.
\<close>

definition store_cooldown :: "string \<Rightarrow> int \<Rightarrow> (string \<rightharpoonup> int) \<Rightarrow> (string \<rightharpoonup> int)" where
  "store_cooldown name now cds = (if name = ''__proto__'' then cds else cds(name \<mapsto> now))"

text \<open>
  The callbacks of the application that \<^verbatim>\<open>evaluate\<close> runs, each given by what it does to
  the alert manager before it returns: \<open>on_alert name entry\<close> stands for the listeners
  that \<^verbatim>\<open>emit("alert", ...)\<close> calls, one after the other, before it returns, and
  \<open>call_handler h entry\<close> for the call \<^verbatim>\<open>rule.handler(entry)\<close>. Either may use the pipeline
  itself, and so reach \<^verbatim>\<open>evaluate\<close> again, while the loop is still running.
\<close>

record callbacks =
  on_alert :: "string \<Rightarrow> entry \<Rightarrow> AlertManager \<Rightarrow> AlertManager"
  call_handler :: "handler \<Rightarrow> entry \<Rightarrow> AlertManager \<Rightarrow> AlertManager"

text \<open>\<^verbatim>\<open>self._emitter.emit("alert", {rule: rule.name, entry: entry})\<close>: the notification
  is emitted and the listeners run.\<close>

definition emit_alert :: "callbacks \<Rightarrow> string \<Rightarrow> entry \<Rightarrow> AlertManager \<Rightarrow> AlertManager" where
  "emit_alert cb name entry am =
     on_alert cb name entry (am\<lparr>am_emitter := am_emitter am @ [AlertEmitted name entry]\<rparr>)"

text \<open>
  The loop of \<^verbatim>\<open>evaluate\<close>. \<open>clock i\<close> is what \<^verbatim>\<open>Date.now()\<close> returns when the rule at
  index \<open>i\<close> is examined. The loop runs over the rules registered when it starts; a
  callback that registers a rule during the loop is outside the model.
\<close>

fun evaluate_loop ::
  "callbacks \<Rightarrow> (nat \<Rightarrow> int) \<Rightarrow> nat \<Rightarrow> entry \<Rightarrow> alert_rule list \<Rightarrow> AlertManager \<Rightarrow>
   AlertManager" where
  "evaluate_loop cb clock i entry [] am = am"
| "evaluate_loop cb clock i entry (rule # rules) am =
     (if below_rule_level rule entry then evaluate_loop cb clock (Suc i) entry rules am
      else if pattern_missing rule entry then evaluate_loop cb clock (Suc i) entry rules am
      else
        let now = clock i;
            prev = lastAt am (r_name rule)
        in if within_cooldown now prev (r_cooldownMs rule)
           then evaluate_loop cb clock (Suc i) entry rules am
           else
             let am1 = am\<lparr>am_cooldowns := store_cooldown (r_name rule) now (am_cooldowns am)\<rparr>;
                 am2 = emit_alert cb (r_name rule) entry am1;
                 am3 = (case r_handler rule of
                          None \<Rightarrow> am2
                        | Some h \<Rightarrow> call_handler cb h entry am2)
             in evaluate_loop cb clock (Suc i) entry rules am3)"

definition evaluate ::
  "callbacks \<Rightarrow> (nat \<Rightarrow> int) \<Rightarrow> entry \<Rightarrow> AlertManager \<Rightarrow> AlertManager" where
  "evaluate cb clock entry am = evaluate_loop cb clock 0 entry (am_rules am) am"

text \<open>A handler that returns without using the pipeline: only the call is recorded.\<close>

definition handler_returns :: "handler \<Rightarrow> entry \<Rightarrow> AlertManager \<Rightarrow> AlertManager" where
  "handler_returns h entry am = am\<lparr>am_emitter := am_emitter am @ [HandlerInvoked h entry]\<rparr>"

text \<open>Callbacks that do not use the pipeline: the listeners do nothing to the manager,
  a handler returns.\<close>

definition quiet :: callbacks where
  "quiet = \<lparr>on_alert = (\<lambda>name entry am. am), call_handler = handler_returns\<rparr>"


text \<open>An entry passes the level and pattern tests of a rule.\<close>

definition rule_matches :: "alert_rule \<Rightarrow> entry \<Rightarrow> bool" where
  "rule_matches rule entry \<longleftrightarrow> \<not> below_rule_level rule entry \<and> \<not> pattern_missing rule entry"

text \<open>The notifications and handler calls of one firing of a rule on an entry.\<close>

definition firing :: "alert_rule \<Rightarrow> entry \<Rightarrow> alert_event list" where
  "firing rule entry =
     AlertEmitted (r_name rule) entry #
     (case r_handler rule of None \<Rightarrow> [] | Some h \<Rightarrow> [HandlerInvoked h entry])"

text \<open>
  The alert manager in the middle of a firing: the instant is recorded and the
  notification is in the sequence of the emitter; no listener and no handler has run.
\<close>

definition fired :: "alert_rule \<Rightarrow> entry \<Rightarrow> int \<Rightarrow> AlertManager \<Rightarrow> AlertManager" where
  "fired rule entry now am =
     am\<lparr>am_cooldowns := store_cooldown (r_name rule) now (am_cooldowns am),
        am_emitter := am_emitter am @ [AlertEmitted (r_name rule) entry]\<rparr>"

text \<open>The alert manager after a firing with callbacks that are \<open>quiet\<close>.\<close>

definition after_firing :: "alert_rule \<Rightarrow> entry \<Rightarrow> int \<Rightarrow> AlertManager \<Rightarrow> AlertManager" where
  "after_firing rule entry now am =
     (case r_handler rule of
        None \<Rightarrow> fired rule entry now am
      | Some h \<Rightarrow> handler_returns h entry (fired rule entry now am))"

text \<open>The \<^verbatim>\<open>alert\<close> notifications of the rule of a given name, among the events.\<close>

definition alerts_of :: "string \<Rightarrow> alert_event list \<Rightarrow> alert_event list" where
  "alerts_of name evs =
     filter (\<lambda>ev. case ev of AlertEmitted n _ \<Rightarrow> n = name | HandlerInvoked _ _ \<Rightarrow> False) evs"

text \<open>The rule that \<open>addRule opts\<close> appends.\<close>

definition added_rule :: "rule_opts \<Rightarrow> AlertManager \<Rightarrow> alert_rule" where
  "added_rule opts am = last (am_rules (addRule opts am))"

text \<open>Rule options with every field missing, and entries to evaluate.\<close>

definition no_opts :: rule_opts where
  "no_opts = \<lparr>o_name = None, o_level = None, o_messagePattern = None,
     o_cooldownMs = None, o_handler = None\<rparr>"

definition entry_at :: "string \<Rightarrow> string \<Rightarrow> entry" where
  "entry_at levelName msg =
     \<lparr>e_timestamp = ''2026-11-02T08:00:00.000Z'', e_level = levelName,
      e_levelCode = (case LOG_LEVELS levelName of None \<Rightarrow> 0 | Some c \<Rightarrow> c),
      e_pid = 4242, e_hostname = ''host'', e_context = ''app'', e_message = msg,
      e_meta = None\<rparr>"



definition demo_now :: int where
  "demo_now = 1793577600000"



subsection \<open>RotatingFileWriter (index.js, lines 160-199)\<close>

text \<open>
  The disk is a map from paths to file contents, a content being a string of bytes, and
  the list of the \<^verbatim>\<open>fs.appendFile\<close> calls that have been started and have not completed
  yet, oldest first: \<^verbatim>\<open>appendFile\<close> is asynchronous, \<^verbatim>\<open>existsSync\<close>, \<^verbatim>\<open>statSync\<close> and
  \<^verbatim>\<open>renameSync\<close> are not. Directories and failing disk operations are not modelled.
\<close>

type_synonym files = "string \<rightharpoonup> string"

record disk =
  d_files :: files
  d_appends :: "(string \<times> string) list"

record RotatingFileWriter =
  w_filePath :: string
  w_maxMB :: nat
  w_maxBackups :: nat
  w_buffer :: "string list"
  w_writing :: bool

definition RotatingFileWriter_new :: "string \<Rightarrow> nat \<Rightarrow> nat \<Rightarrow> RotatingFileWriter" where
  "RotatingFileWriter_new filePath maxMB maxBackups =
     \<lparr>w_filePath = filePath, w_maxMB = maxMB, w_maxBackups = maxBackups,
      w_buffer = [], w_writing = False\<rparr>"

text \<open>\<^verbatim>\<open>this.filePath + "." + i\<close>.\<close>

definition backup_path :: "string \<Rightarrow> nat \<Rightarrow> string" where
  "backup_path filePath i = filePath @ ''.'' @ show_nat i"

text \<open>\<^verbatim>\<open>fs.renameSync\<close> replaces the destination if it exists.\<close>

definition renameSync :: "string \<Rightarrow> string \<Rightarrow> files \<Rightarrow> files" where
  "renameSync src dst fs = (if src = dst then fs else fs(dst := fs src, src := None))"

text \<open>
  The loop of \<^verbatim>\<open>rotate\<close>, \<^verbatim>\<open>for (i = maxBackups - 1; i >= 1; i--)\<close>: the argument is the
  current \<open>i\<close>, and 0 ends the loop.
\<close>

fun rotate_loop :: "string \<Rightarrow> nat \<Rightarrow> files \<Rightarrow> files" where
  "rotate_loop filePath 0 fs = fs"
| "rotate_loop filePath (Suc i) fs =
     rotate_loop filePath i
       (if fs (backup_path filePath (Suc i)) \<noteq> None
        then renameSync (backup_path filePath (Suc i)) (backup_path filePath (Suc i + 1)) fs
        else fs)"

definition rotate :: "RotatingFileWriter \<Rightarrow> files \<Rightarrow> files" where
  "rotate w fs =
     (if fs (w_filePath w) = None then fs
      else renameSync (w_filePath w) (backup_path (w_filePath w) 1)
             (rotate_loop (w_filePath w) (w_maxBackups w - 1) fs))"

definition rfw_write :: "string \<Rightarrow> RotatingFileWriter \<Rightarrow> RotatingFileWriter" where
  "rfw_write line w = w\<lparr>w_buffer := w_buffer w @ [line]\<rparr>"

text \<open>
  \<^verbatim>\<open>getFileSizeMB(path) >= maxMB\<close>: the size in bytes, 0 for a file that does not exist,
  divided by \<open>1024 * 1024\<close> and compared with \<^verbatim>\<open>maxMB\<close>; on whole numbers this is the
  comparison of the size with \<open>maxMB * 1048576\<close>.
\<close>

definition file_size :: "files \<Rightarrow> string \<Rightarrow> nat" where
  "file_size fs path = (case fs path of None \<Rightarrow> 0 | Some content \<Rightarrow> length content)"

definition at_threshold :: "RotatingFileWriter \<Rightarrow> files \<Rightarrow> bool" where
  "at_threshold w fs \<longleftrightarrow> w_maxMB w * 1048576 \<le> file_size fs (w_filePath w)"

text \<open>The chunk of a flush: the lines joined by a newline, and a newline after them.\<close>

definition chunk_of :: "string list \<Rightarrow> string" where
  "chunk_of lines = join [CHR 0x0A] lines @ [CHR 0x0A]"

text \<open>
  \<^verbatim>\<open>flush\<close>. With an empty buffer nothing happens. Otherwise the buffer is emptied, the
  file is rotated if it has reached the threshold, and an \<^verbatim>\<open>appendFile\<close> of the chunk is
  started. Nothing reads or writes \<^verbatim>\<open>_writing\<close>.
\<close>

definition flush :: "RotatingFileWriter \<Rightarrow> disk \<Rightarrow> RotatingFileWriter \<times> disk" where
  "flush w d =
     (if w_buffer w = [] then (w, d)
      else
        let chunk = chunk_of (w_buffer w);
            w' = w\<lparr>w_buffer := []\<rparr>;
            fs = (if at_threshold w' (d_files d) then rotate w' (d_files d) else d_files d)
        in (w', d\<lparr>d_files := fs, d_appends := d_appends d @ [(w_filePath w', chunk)]\<rparr>))"

text \<open>The oldest \<^verbatim>\<open>appendFile\<close> in flight completes: its chunk is added to the end of
  the file, which is created if it does not exist.\<close>

definition complete_append :: "disk \<Rightarrow> disk" where
  "complete_append d =
     (case d_appends d of
        [] \<Rightarrow> d
      | (path, chunk) # rest \<Rightarrow>
          d\<lparr>d_files := (d_files d)(path \<mapsto>
                (case d_files d path of None \<Rightarrow> chunk | Some content \<Rightarrow> content @ chunk)),
            d_appends := rest\<rparr>)"

text \<open>
  A run of rotations: before each one the active file has been written anew, with the
  next content of the list.
\<close>

fun rotations :: "RotatingFileWriter \<Rightarrow> string list \<Rightarrow> files \<Rightarrow> files" where
  "rotations w [] fs = fs"
| "rotations w (c # cs) fs = rotations w cs (rotate w (fs(w_filePath w \<mapsto> c)))"

text \<open>
  The text writer as the logger builds it (5 MB, 5 backups) with two lines pending, and
  a disk on which the log file has reached 5 MB and one backup exists.
\<close>

definition demo_writer :: RotatingFileWriter where
  "demo_writer =
     rfw_write ''second line''
       (rfw_write ''first line'' (RotatingFileWriter_new ''logs/app.log'' 5 5))"

definition five_megabytes :: string where
  "five_megabytes = replicate 5242880 (CHR ''x'')"

definition demo_disk :: disk where
  "demo_disk =
     \<lparr>d_files = [''logs/app.log'' \<mapsto> five_megabytes, ''logs/app.log.1'' \<mapsto> ''older''],
      d_appends = []\<rparr>"

definition empty_disk :: disk where
  "empty_disk = \<lparr>d_files = Map.empty, d_appends = []\<rparr>"

subsection \<open>Formatting an entry (index.js, lines 56-154)\<close>

text \<open>
  \<^verbatim>\<open>padStart(str, len, char)\<close>: \<^verbatim>\<open>char = char || "0"\<close>, then \<^verbatim>\<open>char\<close> is put in front of
  \<^verbatim>\<open>str\<close> while \<^verbatim>\<open>str\<close> is shorter than \<^verbatim>\<open>len\<close>. The padding is not empty, so the loop
  ends; \<open>c\<close> and \<open>cs\<close> are its first character and the rest.
\<close>

function padStart_loop :: "char \<Rightarrow> string \<Rightarrow> nat \<Rightarrow> string \<Rightarrow> string" where
  "padStart_loop c cs len str =
     (if length str < len then padStart_loop c cs len (c # cs @ str) else str)"
  by pat_completeness auto
termination
  by (relation "measure (\<lambda>(c, cs, len, str). len - length str)") auto

declare padStart_loop.simps [simp del]

definition padStart :: "string \<Rightarrow> nat \<Rightarrow> string option \<Rightarrow> string" where
  "padStart str len ch =
     (case str_or ch ''0'' of [] \<Rightarrow> str | c # cs \<Rightarrow> padStart_loop c cs len str)"

text \<open>
  What \<^verbatim>\<open>new Date()\<close> gives: the fields that \<^verbatim>\<open>formatTimestamp\<close> reads, in local time.
  \<^verbatim>\<open>getMonth()\<close> counts from 0.
\<close>

record jsdate =
  getFullYear :: nat
  getMonth :: nat
  getDate :: nat
  getHours :: nat
  getMinutes :: nat
  getSeconds :: nat
  getMilliseconds :: nat

definition formatTimestamp :: "jsdate \<Rightarrow> string" where
  "formatTimestamp date =
     show_nat (getFullYear date)
     @ ''-'' @ padStart (show_nat (getMonth date + 1)) 2 None
     @ ''-'' @ padStart (show_nat (getDate date)) 2 None
     @ ''T'' @ padStart (show_nat (getHours date)) 2 None
     @ '':'' @ padStart (show_nat (getMinutes date)) 2 None
     @ '':'' @ padStart (show_nat (getSeconds date)) 2 None
     @ ''.'' @ padStart (show_nat (getMilliseconds date)) 3 None
     @ ''Z''"

text \<open>
  \<^verbatim>\<open>truncateMessage\<close>. A string is the list of its code units; the ellipsis that opens
  the marker, one code unit in JavaScript, is written as its three bytes in UTF-8.
\<close>

definition truncation_marker :: string where
  "truncation_marker = [CHR 0xE2, CHR 0x80, CHR 0xA6] @ ''[truncated]''"

definition truncateMessage :: "string \<Rightarrow> nat \<Rightarrow> string" where
  "truncateMessage msg maxLen =
     (if length msg > maxLen then take maxLen msg @ truncation_marker else msg)"

text \<open>
  The runtime the library runs in: the process id, the host name, the directory
  \<^verbatim>\<open>path.join(process.cwd(), "logs")\<close> and \<^verbatim>\<open>JSON.stringify\<close> on an entry.
\<close>

record runtime =
  rt_pid :: int
  rt_hostname :: string
  rt_logDir :: string
  rt_stringify :: "entry \<Rightarrow> string"

definition buildEntry ::
  "runtime \<Rightarrow> jsdate \<Rightarrow> int \<Rightarrow> string \<Rightarrow> string \<Rightarrow> string option \<Rightarrow> string \<Rightarrow> entry" where
  "buildEntry rt ts level levelName message meta context =
     \<lparr>e_timestamp = formatTimestamp ts,
      e_level = levelName,
      e_levelCode = level,
      e_pid = rt_pid rt,
      e_hostname = rt_hostname rt,
      e_context = (if context = [] then ''app'' else context),
      e_message = truncateMessage message 4096,
      e_meta = meta\<rparr>"

definition entryToJson :: "runtime \<Rightarrow> entry \<Rightarrow> string" where
  "entryToJson rt entry = rt_stringify rt entry"

definition ANSI :: "string \<Rightarrow> string option" where
  "ANSI = map_of
     [(''reset'', CHR 0x1B # ''[0m''), (''bold'', CHR 0x1B # ''[1m''),
      (''dim'', CHR 0x1B # ''[2m''), (''trace'', CHR 0x1B # ''[35m''),
      (''debug'', CHR 0x1B # ''[36m''), (''info'', CHR 0x1B # ''[34m''),
      (''success'', CHR 0x1B # ''[32m''), (''warn'', CHR 0x1B # ''[33m''),
      (''error'', CHR 0x1B # ''[31m''), (''fatal'', CHR 0x1B # ''[41m''),
      (''label'', CHR 0x1B # ''[90m''), (''value'', CHR 0x1B # ''[97m''),
      (''border'', CHR 0x1B # ''[90m'')]"

definition toLowerCase :: "string \<Rightarrow> string" where
  "toLowerCase s =
     map (\<lambda>c. if CHR ''A'' \<le> c \<and> c \<le> CHR ''Z'' then char_of (of_char c + (32 :: nat)) else c) s"

definition entryToText :: "entry \<Rightarrow> bool \<Rightarrow> string" where
  "entryToText entry useColor =
     (let lvlName = padStart (e_level entry) 7 (Some '' '');
          color = str_or (ANSI (toLowerCase (e_level entry))) (CHR 0x1B # ''[34m'');
          reset = CHR 0x1B # ''[0m'';
          bold = CHR 0x1B # ''[1m'';
          dim = CHR 0x1B # ''[2m'';
          labelC = CHR 0x1B # ''[90m'';
          valueC = CHR 0x1B # ''[97m''
      in if \<not> useColor
         then ''['' @ e_timestamp entry @ ''] ['' @ lvlName @ ''] ['' @ e_context entry @ ''] ''
              @ e_message entry
              @ (case e_meta entry of None \<Rightarrow> [] | Some m \<Rightarrow> '' | meta='' @ m)
         else
           let metaStr = (case e_meta entry of None \<Rightarrow> []
                          | Some m \<Rightarrow> dim @ '' | '' @ labelC @ ''meta='' @ valueC @ m @ reset)
           in labelC @ ''['' @ e_timestamp entry @ ''] '' @ reset
              @ bold @ color @ ''['' @ lvlName @ '']'' @ reset
              @ labelC @ '' ['' @ e_context entry @ ''] '' @ reset
              @ valueC @ e_message entry @ reset
              @ metaStr)"

subsection \<open>Logger (index.js, lines 391-568)\<close>

text \<open>
  A logger owns its ring buffer, its metrics, its alert manager and, with file output,
  its three writers; without file output the three fields are \<^verbatim>\<open>undefined\<close>.
  \<open>l_emitted\<close> is the sequence of \<^verbatim>\<open>log\<close> notifications emitted on the logger,
  \<open>l_stdout\<close> and \<open>l_stderr\<close> what it wrote to the two streams, \<open>l_children\<close> the number
  of loggers in \<^verbatim>\<open>_children\<close>. The two interval timers and the process hooks that the
  constructor installs call the operations below at times of their own and are not part
  of the state.
\<close>

record Logger =
  l_context :: string
  l_level :: int
  l_useColor :: bool
  l_logToConsole :: bool
  l_logToFile :: bool
  l_jsonFile :: bool
  l_ringSize :: nat
  l_metricsInterval :: int
  l_metrics :: MetricsCollector
  l_alerts :: AlertManager
  l_ring :: "entry RingBuffer"
  l_children :: nat
  l_textWriter :: "RotatingFileWriter option"
  l_jsonWriter :: "RotatingFileWriter option"
  l_errorWriter :: "RotatingFileWriter option"
  l_emitted :: "entry list"
  l_stdout :: "string list"
  l_stderr :: "string list"

record Logger_opts =
  lo_context :: "string option"
  lo_level :: "int option"
  lo_color :: "bool option"
  lo_console :: "bool option"
  lo_file :: "bool option"
  lo_jsonFile :: "bool option"
  lo_ringSize :: "nat option"
  lo_metricsInterval :: "int option"

definition MAX_FILE_MB :: nat where "MAX_FILE_MB = 5"

definition MAX_BACKUPS :: nat where "MAX_BACKUPS = 5"

definition bool_or :: "bool option \<Rightarrow> bool \<Rightarrow> bool" where
  "bool_or b d = (case b of None \<Rightarrow> d | Some v \<Rightarrow> v)"

definition Logger_new :: "runtime \<Rightarrow> int \<Rightarrow> Logger_opts \<Rightarrow> Logger" where
  "Logger_new rt now opts =
     (let ringSize = (case lo_ringSize opts of None \<Rightarrow> 2000
                      | Some n \<Rightarrow> if n = 0 then 2000 else n);
          logToFile = bool_or (lo_file opts) True;
          writer = (\<lambda>name. if logToFile
                     then Some (RotatingFileWriter_new (rt_logDir rt @ ''/'' @ name)
                                  MAX_FILE_MB MAX_BACKUPS)
                     else None)
      in \<lparr>l_context = str_or (lo_context opts) ''app'',
          l_level = (case lo_level opts of None \<Rightarrow> 10 | Some l \<Rightarrow> l),
          l_useColor = bool_or (lo_color opts) True,
          l_logToConsole = bool_or (lo_console opts) True,
          l_logToFile = logToFile,
          l_jsonFile = bool_or (lo_jsonFile opts) True,
          l_ringSize = ringSize,
          l_metricsInterval = (case lo_metricsInterval opts of None \<Rightarrow> 30000
                               | Some i \<Rightarrow> if i = 0 then 30000 else i),
          l_metrics = MetricsCollector_new now,
          l_alerts = AlertManager_new,
          l_ring = RingBuffer_new ringSize,
          l_children = 0,
          l_textWriter = writer ''app.log'',
          l_jsonWriter = writer ''app.json.log'',
          l_errorWriter = writer ''error.log'',
          l_emitted = [], l_stdout = [], l_stderr = []\<rparr>)"

text \<open>
  The appends to the file writers, the last step of \<^verbatim>\<open>_write\<close> and of the listener that
  \<^verbatim>\<open>child\<close> installs: every entry goes to the text and the JSON writer, and to the error
  writer when its level is at least \<^verbatim>\<open>ERROR\<close>.
\<close>

definition write_files :: "runtime \<Rightarrow> entry \<Rightarrow> bool \<Rightarrow> Logger \<Rightarrow> Logger" where
  "write_files rt entry isError lg =
     (if l_logToFile lg
      then lg\<lparr>l_textWriter := map_option (rfw_write (entryToText entry False)) (l_textWriter lg),
              l_jsonWriter := map_option (rfw_write (entryToJson rt entry)) (l_jsonWriter lg),
              l_errorWriter :=
                (if isError
                 then map_option (rfw_write (entryToJson rt entry)) (l_errorWriter lg)
                 else l_errorWriter lg)\<rparr>
      else lg)"

text \<open>
  A chain of loggers is a logger followed by its parent, its parent's parent and so on:
  \<^verbatim>\<open>child\<close> subscribes a listener to the \<^verbatim>\<open>log\<close> notifications of the child, and the
  listener works on the parent. \<open>forward\<close> is that listener, run for an entry on the
  parent at the head of the list; the notification it emits on the parent starts the
  parent's own listener, on the rest of the list. Handlers of alert rules and other
  listeners are the application's; they are taken to return without logging.
\<close>

fun forward :: "runtime \<Rightarrow> (nat \<Rightarrow> int) \<Rightarrow> entry \<Rightarrow> Logger list \<Rightarrow> Logger list" where
  "forward rt clock entry [] = []"
| "forward rt clock entry (parent # rest) =
     (let p1 = parent\<lparr>l_ring := push entry (l_ring parent)\<rparr>;
          p2 = p1\<lparr>l_metrics := incrementLevel (e_level entry) (l_metrics p1)\<rparr>;
          p3 = p2\<lparr>l_alerts := evaluate quiet clock entry (l_alerts p2)\<rparr>;
          p4 = p3\<lparr>l_emitted := l_emitted p3 @ [entry]\<rparr>;
          rest' = forward rt clock entry rest;
          p5 = write_files rt entry
                 (js_ge (LOG_LEVELS (e_level entry)) (LOG_LEVELS ''ERROR'')) p4
      in p5 # rest')"

text \<open>
  \<^verbatim>\<open>_write\<close>, on the logger at the head of a chain. \<open>ts\<close> is the \<^verbatim>\<open>new Date()\<close> of
  \<^verbatim>\<open>buildEntry\<close>, \<open>clock\<close> the readings of \<^verbatim>\<open>Date.now()\<close> in \<^verbatim>\<open>evaluate\<close>.
\<close>

definition console_write :: "entry \<Rightarrow> int \<Rightarrow> Logger \<Rightarrow> Logger" where
  "console_write entry level lg =
     (if l_logToConsole lg
      then
        let line = entryToText entry (l_useColor lg)
        in if js_ge (Some level) (LOG_LEVELS ''ERROR'')
           then lg\<lparr>l_stderr := l_stderr lg @ [line @ [CHR 0x0A]]\<rparr>
           else lg\<lparr>l_stdout := l_stdout lg @ [line @ [CHR 0x0A]]\<rparr>
      else lg)"

definition Logger_write ::
  "runtime \<Rightarrow> (nat \<Rightarrow> int) \<Rightarrow> jsdate \<Rightarrow> string \<Rightarrow> string \<Rightarrow> string option \<Rightarrow>
   Logger list \<Rightarrow> Logger list" where
  "Logger_write rt clock ts levelName message meta chain =
     (case chain of
        [] \<Rightarrow> []
      | lg # ancestors \<Rightarrow>
          (case LOG_LEVELS levelName of
             None \<Rightarrow> chain
           | Some level \<Rightarrow>
               if level < l_level lg then chain
               else
                 let entry = buildEntry rt ts level levelName message meta (l_context lg);
                     lg1 = lg\<lparr>l_ring := push entry (l_ring lg)\<rparr>;
                     lg2 = lg1\<lparr>l_metrics := incrementLevel levelName (l_metrics lg1)\<rparr>;
                     lg3 = lg2\<lparr>l_alerts :=
                              evaluate quiet clock entry (l_alerts lg2)\<rparr>;
                     lg4 = lg3\<lparr>l_emitted := l_emitted lg3 @ [entry]\<rparr>;
                     ancestors' = forward rt clock entry ancestors;
                     lg5 = console_write entry level lg4;
                     lg6 = write_files rt entry (js_ge (Some level) (LOG_LEVELS ''ERROR'')) lg5
                 in lg6 # ancestors'))"

text \<open>The level methods.\<close>

definition Logger_trace where "Logger_trace rt clock ts = Logger_write rt clock ts ''TRACE''"
definition Logger_debug where "Logger_debug rt clock ts = Logger_write rt clock ts ''DEBUG''"
definition Logger_success where "Logger_success rt clock ts = Logger_write rt clock ts ''SUCCESS''"
definition Logger_warn where "Logger_warn rt clock ts = Logger_write rt clock ts ''WARN''"
definition Logger_fatal where "Logger_fatal rt clock ts = Logger_write rt clock ts ''FATAL''"

text \<open>
  \<^verbatim>\<open>child(childContext, extraOpts)\<close> on the logger at the head of a chain: the chain of
  the new child. \<^verbatim>\<open>extraOpts.level || this._level\<close> and \<^verbatim>\<open>extraOpts.ringSize || 500\<close> take
  the default also for a 0.
\<close>

record child_opts =
  x_level :: "int option"
  x_color :: "bool option"
  x_console :: "bool option"
  x_ringSize :: "nat option"

definition Logger_child ::
  "runtime \<Rightarrow> int \<Rightarrow> string option \<Rightarrow> child_opts \<Rightarrow> Logger list \<Rightarrow> Logger list" where
  "Logger_child rt now childContext extraOpts chain =
     (case chain of
        [] \<Rightarrow> []
      | parent # ancestors \<Rightarrow>
          Logger_new rt now
            \<lparr>lo_context = childContext,
             lo_level = Some (case x_level extraOpts of None \<Rightarrow> l_level parent
                              | Some l \<Rightarrow> if l = 0 then l_level parent else l),
             lo_color = Some (bool_or (x_color extraOpts) (l_useColor parent)),
             lo_console = Some (bool_or (x_console extraOpts) (l_logToConsole parent)),
             lo_file = Some False,
             lo_jsonFile = None,
             lo_ringSize = Some (case x_ringSize extraOpts of None \<Rightarrow> 500
                                 | Some n \<Rightarrow> if n = 0 then 500 else n),
             lo_metricsInterval = None\<rparr>
          # parent\<lparr>l_children := l_children parent + 1\<rparr> # ancestors)"

text \<open>Options with every field missing, a runtime and a date for evaluating.\<close>

definition no_logger_opts :: Logger_opts where
  "no_logger_opts = \<lparr>lo_context = None, lo_level = None, lo_color = None, lo_console = None,
     lo_file = None, lo_jsonFile = None, lo_ringSize = None, lo_metricsInterval = None\<rparr>"


definition demo_runtime :: runtime where
  "demo_runtime =
     \<lparr>rt_pid = 4242, rt_hostname = ''host'', rt_logDir = ''/srv/app/logs'',
      rt_stringify = (\<lambda>e. ''{level: '' @ e_level e @ '', message: '' @ e_message e @ ''}'')\<rparr>"

definition demo_date :: jsdate where
  "demo_date = \<lparr>getFullYear = 2026, getMonth = 10, getDate = 2, getHours = 8,
     getMinutes = 0, getSeconds = 0, getMilliseconds = 7\<rparr>"

text \<open>A logger with the minimum level \<^verbatim>\<open>WARN\<close> and the other options left out.\<close>

definition warn_logger :: "runtime \<Rightarrow> int \<Rightarrow> Logger" where
  "warn_logger rt now = Logger_new rt now (no_logger_opts\<lparr>lo_level := Some 30\<rparr>)"




section \<open>Properties\<close>

subsection \<open>The ring buffer keeps the last items\<close>

lemma rb_inv_new: "1 \<le> n \<Longrightarrow> rb_inv (RingBuffer_new n)"
  by (simp add: rb_inv_def RingBuffer_new_def)

lemma rb_inv_push: "rb_inv rb \<Longrightarrow> rb_inv (push x rb)"
  by (auto simp: rb_inv_def push_def)

text \<open>Overwriting the oldest slot and advancing the head drops the oldest item of the
  ordered sequence and appends the new one.\<close>

lemma rotate_step:
  assumes "h < length d"
  shows "drop ((h + 1) mod length d) (d[h := x]) @ take ((h + 1) mod length d) (d[h := x])
         = tl (drop h d @ take h d) @ [x]"
proof (cases "h + 1 < length d")
  case True
  then have "drop (h + 1) (d[h := x]) = drop (h + 1) d" by simp
  moreover have "take (h + 1) (d[h := x]) = take h d @ [x]"
    using assms by (simp add: take_Suc_conv_app_nth)
  moreover have "tl (drop h d @ take h d) = drop (h + 1) d @ take h d"
    using assms by (simp add: drop_Suc tl_drop)
  ultimately show ?thesis using True by simp
next
  case False
  with assms have h: "h + 1 = length d" by simp
  then have "d[h := x] = take h d @ [x]"
    using assms by (simp add: upd_conv_take_nth_drop)
  moreover have "tl (drop h d @ take h d) = take h d"
    using Cons_nth_drop_Suc[OF assms] h
    by (metis Suc_eq_plus1 append_Nil drop_all le_refl list.sel(3) append_Cons)
  ultimately show ?thesis using h by simp
qed

lemma toArray_push:
  assumes "rb_inv rb"
  shows "toArray (push x rb) =
     (if length (rb_data rb) < rb_capacity rb then toArray rb @ [x]
      else tl (toArray rb) @ [x])"
proof (cases "length (rb_data rb) < rb_capacity rb")
  case True
  then show ?thesis
    using assms by (auto simp: toArray_def push_def rb_inv_def)
next
  case False
  with assms have len: "length (rb_data rb) = rb_capacity rb"
    and h: "rb_head rb < length (rb_data rb)"
    by (auto simp: rb_inv_def)
  show ?thesis
    using False rotate_step[OF h, of x] len by (simp add: toArray_def push_def)
qed

lemma length_toArray: "length (toArray rb) = length (rb_data rb)"
  by (auto simp: toArray_def)

lemma capacity_push [simp]: "rb_capacity (push x rb) = rb_capacity rb"
  by (simp add: push_def)

lemma push_all_snoc: "push_all (xs @ [x]) rb = push x (push_all xs rb)"
  by (simp add: push_all_def)

lemma push_all_inv: "rb_inv rb \<Longrightarrow> rb_inv (push_all xs rb)"
  by (induction xs rule: rev_induct) (simp_all add: push_all_def rb_inv_push)

lemma capacity_push_all [simp]: "rb_capacity (push_all xs rb) = rb_capacity rb"
  by (induction xs rule: rev_induct) (simp_all add: push_all_def)

lemma toArray_push_all_new:
  assumes "1 \<le> N"
  shows "toArray (push_all xs (RingBuffer_new N)) = drop (length xs - N) xs"
proof (induction xs rule: rev_induct)
  case Nil
  show ?case by (simp add: push_all_def toArray_def RingBuffer_new_def)
next
  case (snoc x xs)
  let ?rb = "push_all xs (RingBuffer_new N)"
  have inv: "rb_inv ?rb" using assms by (simp add: push_all_inv rb_inv_new)
  have cap: "rb_capacity ?rb = N" by (simp add: RingBuffer_new_def)
  have len: "length (rb_data ?rb) = min N (length xs)"
    using snoc length_toArray[of ?rb] by simp
  show ?case
  proof (cases "length xs < N")
    case True
    then show ?thesis
      using toArray_push[OF inv, of x] snoc len cap by (simp add: push_all_snoc)
  next
    case False
    then have "toArray (push x ?rb) = tl (drop (length xs - N) xs) @ [x]"
      using toArray_push[OF inv, of x] snoc len cap by (simp add: push_all_snoc)
    also have "\<dots> = drop (length (xs @ [x]) - N) (xs @ [x])"
      using False assms by (simp add: tl_drop drop_Suc Suc_diff_le)
    finally show ?thesis by (simp add: push_all_snoc)
  qed
qed

text \<open>
  Claim C1. For every capacity \<open>N \<ge> 1\<close> and every sequence \<open>xs\<close> of pushes into a fresh
  ring buffer: when at least \<open>N\<close> items were pushed, \<open>toArray\<close> has length \<open>N\<close> and is the
  last \<open>N\<close> items in push order; when fewer were pushed, it is all of them in push order.
\<close>

theorem ring_buffer_keeps_last_items:
  assumes "1 \<le> N"
  shows "(N \<le> length xs \<longrightarrow>
            length (toArray (push_all xs (RingBuffer_new N))) = N \<and>
            toArray (push_all xs (RingBuffer_new N)) = drop (length xs - N) xs) \<and>
         (length xs < N \<longrightarrow> toArray (push_all xs (RingBuffer_new N)) = xs)"
  using toArray_push_all_new[OF assms, of xs] by simp

theorem ring_buffer_keeps_last_items_witness:
  "toArray (push_all [1, 2, 3, 4, 5 :: nat] (RingBuffer_new 3)) = [3, 4, 5] \<and>
   length (toArray (push_all [1, 2, 3, 4, 5 :: nat] (RingBuffer_new 3))) = 3 \<and>
   toArray (push_all [1, 2 :: nat] (RingBuffer_new 3)) = [1, 2]"
  using ring_buffer_keeps_last_items[of 3 "[1, 2, 3, 4, 5 :: nat]"]
    ring_buffer_keeps_last_items[of 3 "[1, 2 :: nat]"]
  by simp

subsection \<open>query: the loop is a filter, the limit keeps the most recent matches\<close>










subsection \<open>Timer statistics\<close>

lemma stats_loop_fold:
  "stats_loop xs (s, Num a, Num b) = (s + sum_list xs, Num (fold min xs a), Num (fold max xs b))"
  by (induction xs arbitrary: s a b) (auto simp: min_def max_def)

lemma stats_loop_nonempty:
  assumes "samples \<noteq> []"
  shows "stats_loop samples (0, Infinity, NegInfinity) =
           (sum_list samples, Num (Min (set samples)), Num (Max (set samples)))"
proof -
  from assms obtain x xs where s: "samples = x # xs" by (cases samples) auto
  have "stats_loop samples (0, Infinity, NegInfinity) = stats_loop xs (x, Num x, Num x)"
    by (simp add: s)
  also have "\<dots> = (x + sum_list xs, Num (fold min xs x), Num (fold max xs x))"
    by (rule stats_loop_fold)
  finally show ?thesis
    unfolding s Min.set_eq_fold Max.set_eq_fold by simp
qed

text \<open>The two percentile indices are always within the sorted array.\<close>

lemma index95_in_range: "0 < n \<Longrightarrow> index95 n < n"
  by (simp add: index95_def)

lemma index99_in_range: "0 < n \<Longrightarrow> index99 n < n"
  by (simp add: index99_def)

text \<open>
  What \<open>getTimerStats\<close> returns on a timer with samples: count, minimum, maximum,
  rounded mean, and for each percentile the element at its index of the sorted samples,
  unless that element is 0, in which case the maximum.
\<close>

lemma getTimerStats_nonempty:
  assumes "mc_histograms mc name = Some samples" and "samples \<noteq> []"
  shows "getTimerStats name mc =
     Some \<lparr>ts_count = length samples,
           ts_min = Num (Min (set samples)), ts_max = Num (Max (set samples)),
           ts_avg = round_div (sum_list samples) (length samples),
           ts_p95 = (if sort samples ! index95 (length samples) = 0
                     then Num (Max (set samples))
                     else Num (sort samples ! index95 (length samples))),
           ts_p99 = (if sort samples ! index99 (length samples) = 0
                     then Num (Max (set samples))
                     else Num (sort samples ! index99 (length samples)))\<rparr>"
proof -
  have n: "0 < length samples" using assms(2) by simp
  show ?thesis
    using assms index95_in_range[OF n] index99_in_range[OF n]
    by (simp add: getTimerStats_def stats_loop_nonempty element_or_def Let_def)
qed

lemma getTimerStats_no_samples:
  "mc_histograms mc name = None \<or> mc_histograms mc name = Some [] \<Longrightarrow>
   getTimerStats name mc = None"
  by (auto simp: getTimerStats_def)

text \<open>On the samples 1, ..., 100 the percentiles are the elements at the indices 95 and
  99 of the sorted samples, as the specification's example says.\<close>

lemma getTimerStats_one_to_hundred:
  assumes "mc_histograms mc name = Some (map int [1..<101])"
  shows "map_option ts_p95 (getTimerStats name mc) = Some (Num (map int [1..<101] ! 95))"
    and "map_option ts_p99 (getTimerStats name mc) = Some (Num (map int [1..<101] ! 99))"
proof -
  have srt: "sort (map int [1..<101]) = map int [1..<101]"
    by (intro sorted_sort_id)
       (simp add: sorted_map strict_sorted_iff[symmetric] sorted_wrt_upt del: upt.simps)
  have ne: "map int [1..<101] \<noteq> []" by simp
  note g = getTimerStats_nonempty[OF assms ne]
  show "map_option ts_p95 (getTimerStats name mc) = Some (Num (map int [1..<101] ! 95))"
    unfolding g srt by (simp add: index95_def del: upt.simps)
  show "map_option ts_p99 (getTimerStats name mc) = Some (Num (map int [1..<101] ! 99))"
    unfolding g srt by (simp add: index99_def del: upt.simps)
qed

text \<open>A timer started and ended within the same millisecond records the sample 0.\<close>

lemma timer_within_one_millisecond:
  assumes "now \<noteq> 0"
  shows "endTimer now name (startTimer now name mc) =
     (Some 0, mc\<lparr>mc_timers := (mc_timers mc)(name := None),
        mc_histograms := (mc_histograms mc)(name \<mapsto>
          (case mc_histograms mc name of None \<Rightarrow> [] | Some xs \<Rightarrow> xs) @ [0])\<rparr>)"
  using assms by (simp add: endTimer_def startTimer_def)

lemma sort_samples_mostly_zero: "sort samples_mostly_zero = samples_mostly_zero"
  by (simp add: samples_mostly_zero_def sorted_sort_id sorted_append)

lemma stats_loop_samples_mostly_zero:
  "stats_loop samples_mostly_zero (0, Infinity, NegInfinity) = (5, Num 0, Num 5)"
  unfolding samples_mostly_zero_def by code_simp

lemma nth_samples_mostly_zero:
  "samples_mostly_zero ! 19 = 0" "samples_mostly_zero ! 20 = 5"
  "length samples_mostly_zero = 21"
  by (simp_all add: samples_mostly_zero_def nth_append)

text \<open>
  Claim C5 holds of the code except where the sample at a percentile's index is 0. The
  index \<open>\<lfloor>0.95 n\<rfloor>\<close> is never beyond the range of the sorted array, so by the claim the
  maximum is never reported in place of the element. On twenty samples of 0 ms and one
  of 5 ms the index is 19 and the element there is 0: the claim gives \<open>p95 = 0\<close>, and
  \<open>getTimerStats\<close> reports the maximum, 5, because \<^verbatim>\<open>sorted[19] || max\<close> takes the number
  0 for a missing element.
\<close>

theorem getTimerStats_zero_sample_reports_max:
  "getTimerStats ''op'' collector_mostly_zero =
     Some \<lparr>ts_count = 21, ts_min = Num 0, ts_max = Num 5, ts_avg = 0,
           ts_p95 = Num 5, ts_p99 = Num 5\<rparr> \<and>
   index95 (length samples_mostly_zero) = 19 \<and>
   index95 (length samples_mostly_zero) < length (sort samples_mostly_zero) \<and>
   sort samples_mostly_zero ! index95 (length samples_mostly_zero) = 0"
proof -
  have ne: "samples_mostly_zero \<noteq> []" by (simp add: samples_mostly_zero_def)
  have h: "mc_histograms collector_mostly_zero ''op'' = Some samples_mostly_zero"
    by (simp add: collector_mostly_zero_def)
  have "getTimerStats ''op'' collector_mostly_zero =
     Some \<lparr>ts_count = 21, ts_min = Num 0, ts_max = Num 5, ts_avg = 0,
           ts_p95 = Num 5, ts_p99 = Num 5\<rparr>"
    by (simp add: getTimerStats_def h ne stats_loop_samples_mostly_zero
        sort_samples_mostly_zero nth_samples_mostly_zero element_or_def index95_def
        index99_def round_div_def)
  then show ?thesis
    by (simp add: sort_samples_mostly_zero nth_samples_mostly_zero index95_def)
qed

subsection \<open>Alert rules: defaults of addRule\<close>

lemma addRule_rules: "am_rules (addRule opts am) = am_rules am @ [added_rule opts am]"
  by (simp add: addRule_def added_rule_def)

lemma added_rule_fields:
  "r_level (added_rule opts am) = str_or (o_level opts) ''ERROR''"
  "r_cooldownMs (added_rule opts am) =
     (case o_cooldownMs opts of None \<Rightarrow> 60000 | Some c \<Rightarrow> if c = 0 then 60000 else c)"
  "r_handler (added_rule opts am) = o_handler opts"
  "r_name (added_rule opts am) =
     str_or (o_name opts) (''rule_'' @ show_nat (length (am_rules am)))"
  "r_messagePattern (added_rule opts am) =
     (if truthy_str (o_messagePattern opts) then o_messagePattern opts else None)"
  by (simp_all add: addRule_def added_rule_def)

lemma show_nat_0: "show_nat 0 = ''0''"
  by (simp add: show_nat.simps[of 0] digit_char_def)

lemma LOG_LEVELS_values:
  "LOG_LEVELS ''TRACE'' = Some 0" "LOG_LEVELS ''DEBUG'' = Some 10"
  "LOG_LEVELS ''INFO'' = Some 20" "LOG_LEVELS ''SUCCESS'' = Some 25"
  "LOG_LEVELS ''WARN'' = Some 30" "LOG_LEVELS ''ERROR'' = Some 40"
  "LOG_LEVELS ''FATAL'' = Some 50" "LOG_LEVELS ''SILENT'' = Some 100"
  "LOG_LEVELS ''CRITICAL'' = None" "LOG_LEVELS [] = None"
  by (simp_all add: LOG_LEVELS_def)

subsection \<open>Alert rules: the recorded instants\<close>

lemma lastAt_own: "am_cooldowns am n = Some t \<Longrightarrow> lastAt am n = Some t"
  by (simp add: lastAt_def)

lemma lastAt_never_fired:
  "am_cooldowns am n = None \<Longrightarrow> n \<notin> set object_prototype_keys \<Longrightarrow> lastAt am n = Some 0"
  by (simp add: lastAt_def)

lemma lastAt_inherited:
  "am_cooldowns am n = None \<Longrightarrow> n \<in> set object_prototype_keys \<Longrightarrow> lastAt am n = None"
  by (simp add: lastAt_def)

lemma proto_inherited: "''__proto__'' \<in> set object_prototype_keys"
  by (simp add: object_prototype_keys_def)

lemma lastAt_handler_returns [simp]: "lastAt (handler_returns h e am) n = lastAt am n"
  by (simp add: lastAt_def handler_returns_def)

lemma rules_handler_returns [simp]: "am_rules (handler_returns h e am) = am_rules am"
  by (simp add: handler_returns_def)

lemma fired_simps [simp]:
  "am_rules (fired r e t am) = am_rules am"
  "am_cooldowns (fired r e t am) = store_cooldown (r_name r) t (am_cooldowns am)"
  "am_emitter (fired r e t am) = am_emitter am @ [AlertEmitted (r_name r) e]"
  by (simp_all add: fired_def)

lemma lastAt_fired:
  "lastAt (fired r e t am) n =
     (if n = r_name r \<and> n \<noteq> ''__proto__'' then Some t else lastAt am n)"
  by (simp add: fired_def lastAt_def store_cooldown_def)

lemma after_firing_simps [simp]:
  "am_rules (after_firing r e t am) = am_rules am"
  "am_emitter (after_firing r e t am) = am_emitter am @ firing r e"
  "am_cooldowns (after_firing r e t am) = store_cooldown (r_name r) t (am_cooldowns am)"
  by (simp_all add: after_firing_def firing_def handler_returns_def split: option.splits)

lemma lastAt_after_firing:
  "lastAt (after_firing r e t am) n =
     (if n = r_name r \<and> n \<noteq> ''__proto__'' then Some t else lastAt am n)"
  by (auto simp: after_firing_def lastAt_fired split: option.splits)

lemma lastAt_new [simp]:
  "lastAt AlertManager_new n = (if n \<in> set object_prototype_keys then None else Some 0)"
  by (simp add: lastAt_def AlertManager_new_def)

lemma lastAt_addRule [simp]: "lastAt (addRule opts am) n = lastAt am n"
  by (simp add: lastAt_def addRule_def)

lemma rules_addRule_new: "am_rules (addRule opts AlertManager_new) = [added_rule opts AlertManager_new]"
  by (simp add: addRule_rules) (simp add: AlertManager_new_def)

lemma emitter_addRule [simp]: "am_emitter (addRule opts am) = am_emitter am"
  by (simp add: addRule_def)

lemma emitter_new [simp]: "am_emitter AlertManager_new = []"
  by (simp add: AlertManager_new_def)

lemma entry_at_fields [simp]:
  "e_level (entry_at l m) = l" "e_message (entry_at l m) = m"
  by (simp_all add: entry_at_def)

subsection \<open>Alert rules: one step of the loop\<close>

text \<open>One rule of the loop, with any callbacks: on a firing the listeners run on the
  manager in which the instant is recorded and the notification emitted, and the
  handler after the listeners.\<close>

lemma evaluate_loop_step:
  "evaluate_loop cb clock j e (r # rs) am =
     evaluate_loop cb clock (Suc j) e rs
       (if rule_matches r e \<and>
           \<not> within_cooldown (clock j) (lastAt am (r_name r)) (r_cooldownMs r)
        then case r_handler r of
               None \<Rightarrow> on_alert cb (r_name r) e (fired r e (clock j) am)
             | Some h \<Rightarrow> call_handler cb h e (on_alert cb (r_name r) e (fired r e (clock j) am))
        else am)"
  by (auto simp: rule_matches_def fired_def emit_alert_def Let_def split: option.splits)

lemma quiet_simps [simp]:
  "on_alert quiet n e am = am" "call_handler quiet = handler_returns"
  by (simp_all add: quiet_def)

lemma evaluate_loop_quiet_step:
  "evaluate_loop quiet clock j e (r # rs) am =
     evaluate_loop quiet clock (Suc j) e rs
       (if rule_matches r e \<and>
           \<not> within_cooldown (clock j) (lastAt am (r_name r)) (r_cooldownMs r)
        then after_firing r e (clock j) am else am)"
  by (simp add: evaluate_loop_step after_firing_def split: option.splits
      del: evaluate_loop.simps)


lemma evaluate_single_quiet:
  assumes "am_rules am = [r]"
  shows "evaluate quiet clock e am =
     (if rule_matches r e \<and>
         \<not> within_cooldown (clock 0) (lastAt am (r_name r)) (r_cooldownMs r)
      then after_firing r e (clock 0) am else am)"
  using assms by (simp add: evaluate_def evaluate_loop_quiet_step del: evaluate_loop.simps(2))

lemma evaluate_no_rules [simp]: "am_rules am = [] \<Longrightarrow> evaluate cb clock e am = am"
  by (simp add: evaluate_def)

text \<open>
  Claim C10. A call of \<open>addRule\<close> that gives \<^verbatim>\<open>cooldownMs: 0\<close> appends a rule whose cooldown
  is the default, 60000 ms; and whatever the options, the cooldown of the appended rule
  is not 0.
\<close>

theorem addRule_zero_cooldown_is_default:
  "am_rules (addRule (opts\<lparr>o_cooldownMs := Some 0\<rparr>) am) =
     am_rules am @ [added_rule (opts\<lparr>o_cooldownMs := Some 0\<rparr>) am] \<and>
   r_cooldownMs (added_rule (opts\<lparr>o_cooldownMs := Some 0\<rparr>) am) = 60000 \<and>
   r_cooldownMs (added_rule opts' am') \<noteq> 0"
  by (simp add: addRule_def added_rule_def split: option.splits)

subsection \<open>Alert rules: a level name that is not a level\<close>

lemma below_rule_level_unrecognised:
  "LOG_LEVELS (r_level r) = None \<Longrightarrow> \<not> below_rule_level r e"
  by (simp add: below_rule_level_def js_lt_def split: option.splits)

lemma below_rule_level_ERROR:
  "r_level r = ''ERROR'' \<Longrightarrow> LOG_LEVELS (e_level e) = Some c \<Longrightarrow>
   below_rule_level r e = (c < 40)"
  by (simp add: below_rule_level_def js_lt_def LOG_LEVELS_values)

text \<open>A rule added without a level, or with the empty string for it, gets the level
  \<^verbatim>\<open>ERROR\<close>: its level test skips the entries below \<^verbatim>\<open>ERROR\<close> and no others.\<close>

lemma addRule_missing_level_is_ERROR:
  assumes "o_level opts = None \<or> o_level opts = Some []"
  shows "r_level (added_rule opts am) = ''ERROR''"
    and "LOG_LEVELS (e_level e) = Some c \<Longrightarrow> below_rule_level (added_rule opts am) e = (c < 40)"
proof -
  show lv: "r_level (added_rule opts am) = ''ERROR''"
    using assms by (auto simp: added_rule_fields str_or_def)
  show "below_rule_level (added_rule opts am) e = (c < 40)" if "LOG_LEVELS (e_level e) = Some c"
    using below_rule_level_ERROR[OF lv that] .
qed

text \<open>A level that is not empty and is no key of \<open>LOG_LEVELS\<close> is stored as it is given,
  and the level test of the rule then skips no entry: in a fresh manager every entry
  that passes the pattern test fires the rule, once the clock has reached the cooldown.\<close>

lemma unrecognised_rule_level_skips_no_entry:
  assumes "o_level opts = Some l" "l \<noteq> []" "LOG_LEVELS l = None"
  shows "r_level (added_rule opts am) = l"
    and "\<not> below_rule_level (added_rule opts am) e"
    and "\<not> pattern_missing (added_rule opts AlertManager_new) e \<Longrightarrow>
         \<not> within_cooldown t (lastAt AlertManager_new (r_name (added_rule opts AlertManager_new)))
              (r_cooldownMs (added_rule opts AlertManager_new)) \<Longrightarrow>
         am_emitter (evaluate quiet (\<lambda>_. t) e (addRule opts AlertManager_new)) =
           firing (added_rule opts AlertManager_new) e"
proof -
  show "r_level (added_rule opts am) = l"
    using assms by (simp add: added_rule_fields str_or_def)
  then show "\<not> below_rule_level (added_rule opts am) e"
    using assms by (simp add: below_rule_level_unrecognised)
  assume p: "\<not> pattern_missing (added_rule opts AlertManager_new) e"
    and c: "\<not> within_cooldown t (lastAt AlertManager_new (r_name (added_rule opts AlertManager_new)))
              (r_cooldownMs (added_rule opts AlertManager_new))"
  have "LOG_LEVELS (r_level (added_rule opts AlertManager_new)) = None"
    using assms by (simp add: added_rule_fields str_or_def)
  then have "rule_matches (added_rule opts AlertManager_new) e"
    using p by (simp add: rule_matches_def below_rule_level_unrecognised)
  then show "am_emitter (evaluate quiet (\<lambda>_. t) e (addRule opts AlertManager_new)) =
           firing (added_rule opts AlertManager_new) e"
    using c by (simp add: evaluate_single_quiet[OF rules_addRule_new] del: lastAt_new)
qed

text \<open>
  Claim C8 does not hold of the code: \<open>addRule\<close> replaces only a level that is missing
  or empty, and no name is checked against \<open>LOG_LEVELS\<close>. A rule added with the level
  \<^verbatim>\<open>CRITICAL\<close>, which is no key of \<open>LOG_LEVELS\<close>, keeps that name. By the claim it behaves
  as a rule of level \<^verbatim>\<open>ERROR\<close>, which an \<^verbatim>\<open>INFO\<close> entry does not fire, whether \<^verbatim>\<open>ERROR\<close>
  is given or the level left out; and yet the \<^verbatim>\<open>INFO\<close> entry fires the rule, because
  the comparison with the level of the name \<^verbatim>\<open>CRITICAL\<close>, which is \<^verbatim>\<open>undefined\<close>, is
  false.
\<close>

theorem unrecognised_rule_level_fires_below_error:
  "r_level (added_rule (no_opts\<lparr>o_level := Some ''CRITICAL''\<rparr>) AlertManager_new) = ''CRITICAL'' \<and>
   LOG_LEVELS ''CRITICAL'' = None \<and>
   js_lt (LOG_LEVELS ''INFO'') (LOG_LEVELS ''ERROR'') \<and>
   am_emitter (evaluate quiet (\<lambda>_. demo_now) (entry_at ''INFO'' ''service started'')
      (addRule (no_opts\<lparr>o_level := Some ''CRITICAL''\<rparr>) AlertManager_new)) =
     [AlertEmitted ''rule_0'' (entry_at ''INFO'' ''service started'')] \<and>
   am_emitter (evaluate quiet (\<lambda>_. demo_now) (entry_at ''INFO'' ''service started'')
      (addRule (no_opts\<lparr>o_level := Some ''ERROR''\<rparr>) AlertManager_new)) = [] \<and>
   am_emitter (evaluate quiet (\<lambda>_. demo_now) (entry_at ''INFO'' ''service started'')
      (addRule no_opts AlertManager_new)) = []"
proof -
  let ?o = "no_opts\<lparr>o_level := Some ''CRITICAL''\<rparr>"
  let ?o' = "no_opts\<lparr>o_level := Some ''ERROR''\<rparr>"
  let ?r = "added_rule ?o AlertManager_new"
  let ?e = "entry_at ''INFO'' ''service started''"
  have f: "r_level ?r = ''CRITICAL''" "r_cooldownMs ?r = 60000" "r_name ?r = ''rule_0''"
    "r_handler ?r = None" "r_messagePattern ?r = None"
    by (simp_all add: added_rule_fields no_opts_def str_or_def truthy_str_def show_nat_0
        AlertManager_new_def)
  have k: "''rule_0'' \<notin> set object_prototype_keys"
    by (simp add: object_prototype_keys_def)
  have m: "rule_matches ?r ?e"
    by (simp add: rule_matches_def below_rule_level_unrecognised f LOG_LEVELS_values
        pattern_missing_def)
  have "evaluate quiet (\<lambda>_. demo_now) ?e (addRule ?o AlertManager_new) =
    after_firing ?r ?e demo_now (addRule ?o AlertManager_new)"
    using m k by (simp add: evaluate_single_quiet[OF rules_addRule_new] f demo_now_def
        within_cooldown_def)
  then have a: "am_emitter (evaluate quiet (\<lambda>_. demo_now) ?e (addRule ?o AlertManager_new)) =
     [AlertEmitted ''rule_0'' ?e]"
    by (simp add: f firing_def)
  have lv: "r_level (added_rule ?o' AlertManager_new) = ''ERROR''"
    "r_level (added_rule no_opts AlertManager_new) = ''ERROR''"
    by (simp_all add: added_rule_fields no_opts_def str_or_def)
  have n: "\<not> rule_matches (added_rule ?o' AlertManager_new) ?e"
    "\<not> rule_matches (added_rule no_opts AlertManager_new) ?e"
    by (simp_all add: rule_matches_def below_rule_level_def lv LOG_LEVELS_values js_lt_def)
  have b: "evaluate quiet (\<lambda>_. demo_now) ?e (addRule ?o' AlertManager_new) =
      addRule ?o' AlertManager_new"
    "evaluate quiet (\<lambda>_. demo_now) ?e (addRule no_opts AlertManager_new) =
      addRule no_opts AlertManager_new"
    using n by (simp_all add: evaluate_single_quiet[OF rules_addRule_new])
  show ?thesis
    unfolding b using a by (simp add: f js_lt_def LOG_LEVELS_values)
qed

subsection \<open>Alert rules: the cooldown\<close>


text \<open>
  The names that \<^verbatim>\<open>Object.prototype\<close> has are another matter. A rule named
  \<^verbatim>\<open>toString\<close> that has never fired is eligible at once, also at the instant 1000 with
  the default cooldown, and the firing records the instant. A rule named \<^verbatim>\<open>__proto__\<close>
  never has an instant recorded: it fires on every entry that matches it.
\<close>

lemma never_fired_inherited_name_fires:
  "am_emitter (evaluate quiet (\<lambda>_. 1000) (entry_at ''ERROR'' ''disk failure'')
     (addRule (no_opts\<lparr>o_name := Some ''toString''\<rparr>) AlertManager_new)) =
     [AlertEmitted ''toString'' (entry_at ''ERROR'' ''disk failure'')] \<and>
   lastAt (evaluate quiet (\<lambda>_. 1000) (entry_at ''ERROR'' ''disk failure'')
     (addRule (no_opts\<lparr>o_name := Some ''toString''\<rparr>) AlertManager_new)) ''toString'' =
     Some 1000"
proof -
  let ?o = "no_opts\<lparr>o_name := Some ''toString''\<rparr>"
  let ?e = "entry_at ''ERROR'' ''disk failure''"
  have f: "r_level (added_rule ?o AlertManager_new) = ''ERROR''"
    "r_cooldownMs (added_rule ?o AlertManager_new) = 60000"
    "r_messagePattern (added_rule ?o AlertManager_new) = None"
    "r_name (added_rule ?o AlertManager_new) = ''toString''"
    "r_handler (added_rule ?o AlertManager_new) = None"
    by (simp_all add: added_rule_fields no_opts_def str_or_def truthy_str_def)
  have k: "''toString'' \<in> set object_prototype_keys"
    by (simp add: object_prototype_keys_def)
  have m: "rule_matches (added_rule ?o AlertManager_new) ?e"
    by (simp add: rule_matches_def below_rule_level_def pattern_missing_def f
        LOG_LEVELS_values js_lt_def)
  show ?thesis
    using m k
    by (simp add: evaluate_single_quiet[OF rules_addRule_new] f within_cooldown_def
        lastAt_after_firing firing_def)
qed

lemma proto_rule_fires_on_every_entry:
  assumes "am_rules am = [r]" "r_name r = ''__proto__''" "am_cooldowns am ''__proto__'' = None"
    and "rule_matches r e"
  shows "am_cooldowns (evaluate quiet clock e am) = am_cooldowns am"
    and "am_emitter (evaluate quiet clock e am) = am_emitter am @ firing r e"
  using assms
  by (simp_all add: evaluate_single_quiet lastAt_inherited proto_inherited within_cooldown_def
      store_cooldown_def)

lemma alerts_of_append [simp]: "alerts_of n (xs @ ys) = alerts_of n xs @ alerts_of n ys"
  by (simp add: alerts_of_def)

lemma alerts_of_simps [simp]:
  "alerts_of n [] = []"
  "alerts_of n (AlertEmitted m e # evs) = (if m = n then AlertEmitted m e # alerts_of n evs else alerts_of n evs)"
  "alerts_of n (HandlerInvoked h e # evs) = alerts_of n evs"
  by (simp_all add: alerts_of_def)



lemma rules_evaluate_loop [simp]:
  "am_rules (evaluate_loop quiet clock j e rs am) = am_rules am"
  by (induction rs arbitrary: j am)
     (simp_all add: evaluate_loop_quiet_step del: evaluate_loop.simps(2))

lemma rules_evaluate [simp]: "am_rules (evaluate quiet clock e am) = am_rules am"
  by (simp add: evaluate_def)







subsection \<open>Backup paths are distinct\<close>

lemma show_nat_nonempty: "show_nat n \<noteq> []"
  by (subst show_nat.simps) simp

lemma digit_char_inj: "a < 10 \<Longrightarrow> b < 10 \<Longrightarrow> digit_char a = digit_char b \<Longrightarrow> a = b"
proof -
  assume a: "a < 10" and b: "b < 10" and e: "digit_char a = digit_char b"
  have d: "distinct ''0123456789''" by simp
  have l: "length ''0123456789'' = 10" by simp
  show "a = b"
    using nth_eq_iff_index_eq[OF d, of a b] a b e l unfolding digit_char_def by metis
qed

lemma show_nat_inj: "show_nat n = show_nat m \<Longrightarrow> n = m"
proof (induction n arbitrary: m rule: show_nat.induct)
  case (1 n)
  show ?case
  proof (cases "n < 10")
    case True
    then have sn: "show_nat n = [digit_char n]" by (simp add: show_nat.simps[of n])
    show ?thesis
    proof (cases "m < 10")
      case mt: True
      then have "show_nat m = [digit_char m]" by (simp add: show_nat.simps[of m])
      with sn 1(2) True mt show ?thesis by (simp add: digit_char_inj)
    next
      case False
      then have "show_nat m = show_nat (m div 10) @ [digit_char (m mod 10)]"
        by (simp add: show_nat.simps[of m])
      with sn 1(2) show_nat_nonempty[of "m div 10"] show ?thesis by simp
    qed
  next
    case False
    then have sn: "show_nat n = show_nat (n div 10) @ [digit_char (n mod 10)]"
      by (simp add: show_nat.simps[of n])
    show ?thesis
    proof (cases "m < 10")
      case True
      then have "show_nat m = [digit_char m]" by (simp add: show_nat.simps[of m])
      with sn 1(2) show_nat_nonempty[of "n div 10"] show ?thesis by simp
    next
      case mf: False
      then have sm: "show_nat m = show_nat (m div 10) @ [digit_char (m mod 10)]"
        by (simp add: show_nat.simps[of m])
      from sn sm 1(2) have e1: "show_nat (n div 10) = show_nat (m div 10)"
        and e2: "digit_char (n mod 10) = digit_char (m mod 10)" by simp_all
      from 1(1)[OF False e1] have "n div 10 = m div 10" .
      moreover from e2 have "n mod 10 = m mod 10" by (simp add: digit_char_inj)
      ultimately show ?thesis by (metis div_mult_mod_eq)
    qed
  qed
qed

lemma backup_path_inj [simp]: "backup_path p i = backup_path p j \<longleftrightarrow> i = j"
  by (auto simp: backup_path_def dest: show_nat_inj)

lemma backup_path_neq [simp]: "backup_path p i \<noteq> p" "p \<noteq> backup_path p i"
  by (simp_all add: backup_path_def)

subsection \<open>Rotation shifts the backups\<close>

lemma rotate_loop_other:
  "(\<forall>j. q \<noteq> backup_path p j) \<Longrightarrow> rotate_loop p i fs q = fs q"
  by (induction i arbitrary: fs) (auto simp: renameSync_def)

lemma rotate_loop_slot:
  "rotate_loop p i fs (backup_path p j) =
     (if 2 \<le> j \<and> j \<le> i + 1 \<and> fs (backup_path p (j - 1)) \<noteq> None
      then fs (backup_path p (j - 1))
      else if 1 \<le> j \<and> j \<le> i \<and> fs (backup_path p j) \<noteq> None then None
      else fs (backup_path p j))"
proof (induction i arbitrary: fs)
  case 0
  then show ?case by auto
next
  case (Suc i)
  show ?case
  proof (cases "fs (backup_path p (Suc i)) = None")
    case True
    then show ?thesis
      by (simp add: Suc.IH) (auto simp: le_Suc_eq)
  next
    case False
    then show ?thesis
      by (simp add: Suc.IH renameSync_def) (auto simp: le_Suc_eq)
  qed
qed

lemma rotate_active:
  assumes "fs (w_filePath w) \<noteq> None"
  shows "rotate w fs (w_filePath w) = None"
    and "rotate w fs (backup_path (w_filePath w) 1) = fs (w_filePath w)"
  using assms by (auto simp: rotate_def renameSync_def rotate_loop_other)

lemma rotate_slot:
  assumes "fs (w_filePath w) \<noteq> None" and "2 \<le> j"
  shows "rotate w fs (backup_path (w_filePath w) j) =
     (if j \<le> w_maxBackups w \<and> fs (backup_path (w_filePath w) (j - 1)) \<noteq> None
      then fs (backup_path (w_filePath w) (j - 1))
      else if j < w_maxBackups w \<and> fs (backup_path (w_filePath w) j) \<noteq> None then None
      else fs (backup_path (w_filePath w) j))"
  using assms by (auto simp: rotate_def renameSync_def rotate_loop_slot)

lemma rotate_slot0:
  assumes "fs (w_filePath w) \<noteq> None"
  shows "rotate w fs (backup_path (w_filePath w) 0) = fs (backup_path (w_filePath w) 0)"
  using assms by (auto simp: rotate_def renameSync_def rotate_loop_slot)

lemma rotate_other:
  assumes "q \<noteq> w_filePath w" and "\<forall>j. q \<noteq> backup_path (w_filePath w) j"
  shows "rotate w fs q = fs q"
  using assms by (auto simp: rotate_def renameSync_def rotate_loop_other)

lemma rotations_snoc:
  "rotations w (cs @ [c]) fs = rotate w ((rotations w cs fs)(w_filePath w \<mapsto> c))"
  by (induction cs arbitrary: fs) simp_all

lemma rotations_slots:
  assumes "1 \<le> w_maxBackups w" and "\<forall>i. fs (backup_path (w_filePath w) i) = None"
  shows "rotations w cs fs (backup_path (w_filePath w) j) =
     (if 1 \<le> j \<and> j \<le> min (length cs) (w_maxBackups w)
      then Some (cs ! (length cs - j)) else None)"
proof (induction cs arbitrary: j rule: rev_induct)
  case Nil
  then show ?case using assms by simp
next
  case (snoc c cs)
  let ?p = "w_filePath w"
  let ?fs = "(rotations w cs fs)(?p \<mapsto> c)"
  have ex: "?fs ?p \<noteq> None" by simp
  have old: "?fs (backup_path ?p k) =
     (if 1 \<le> k \<and> k \<le> min (length cs) (w_maxBackups w)
      then Some (cs ! (length cs - k)) else None)" for k
    using snoc[of k] by simp
  consider "j = 0" | "j = 1" | "2 \<le> j" by linarith
  then show ?case
  proof cases
    case 1
    then show ?thesis
      using rotate_slot0[of ?fs w] ex old[of 0] by (simp add: rotations_snoc)
  next
    case 2
    then show ?thesis
      using rotate_active(2)[of ?fs w] ex assms(1) by (simp add: rotations_snoc)
  next
    case 3
    then show ?thesis
      using rotate_slot[of ?fs w j] ex 3 old[of j] old[of "j - 1"] assms(1)
      by (auto simp: rotations_snoc nth_append Suc_diff_le)
  qed
qed

lemma rotations_active:
  "cs \<noteq> [] \<Longrightarrow> rotations w cs fs (w_filePath w) = None"
  by (induction cs rule: rev_induct) (simp_all add: rotations_snoc rotate_active)

lemma rotate_buffer [simp]: "rotate (w\<lparr>w_buffer := b\<rparr>) = rotate w"
  by (rule ext) (simp add: rotate_def)

lemma at_threshold_buffer [simp]: "at_threshold (w\<lparr>w_buffer := b\<rparr>) = at_threshold w"
  by (rule ext) (simp add: at_threshold_def)

lemma at_threshold_exists:
  "1 \<le> w_maxMB w \<Longrightarrow> at_threshold w fs \<Longrightarrow> fs (w_filePath w) \<noteq> None"
  by (auto simp: at_threshold_def file_size_def split: option.splits)

lemma flush_nonempty:
  assumes "w_buffer w \<noteq> []"
  shows "flush w d =
     (w\<lparr>w_buffer := []\<rparr>,
      d\<lparr>d_files := (if at_threshold w (d_files d) then rotate w (d_files d) else d_files d),
        d_appends := d_appends d @ [(w_filePath w, chunk_of (w_buffer w))]\<rparr>)"
  using assms by (simp add: flush_def Let_def)

text \<open>
  Claim C7. The logger builds its writers with a threshold of 5 MB and 5 backups; the
  statement is for every writer with a threshold of at least 1 MB and at least one
  backup. A flush with lines pending empties the buffer and starts one
  \<^verbatim>\<open>appendFile\<close> of the one chunk, the lines joined by newlines with a newline after them.
  Below the threshold the files are left alone. At the threshold the active file
  exists and the files are rotated once, before the chunk is appended: afterwards the
  active file is gone, backup 1 is the former active file, backup \<open>k + 1\<close> is the
  former backup \<open>k\<close> for every \<open>k\<close> from 1 to \<open>maxBackups - 1\<close> that existed (the former
  backup \<open>maxBackups\<close> is thereby replaced), every other file is untouched, and with no
  other append in flight the active file holds, once the append has completed, the
  chunk and nothing else. After \<open>maxBackups + 1\<close> rotations of a file that had no backups,
  exactly the backups 1 to \<open>maxBackups\<close> exist, backup \<open>i\<close> holding the content rotated
  \<open>i\<close>-th last, so that the content rotated first is gone.
\<close>

theorem flush_drains_and_rotates_once:
  assumes "w_buffer w \<noteq> []" and "1 \<le> w_maxBackups w" and "1 \<le> w_maxMB w"
  shows
   "fst (flush w d) = w\<lparr>w_buffer := []\<rparr> \<and>
    d_appends (snd (flush w d)) = d_appends d @ [(w_filePath w, chunk_of (w_buffer w))] \<and>
    (\<not> at_threshold w (d_files d) \<longrightarrow> d_files (snd (flush w d)) = d_files d) \<and>
    (at_threshold w (d_files d) \<longrightarrow>
       d_files d (w_filePath w) \<noteq> None \<and>
       d_files (snd (flush w d)) = rotate w (d_files d) \<and>
       rotate w (d_files d) (w_filePath w) = None \<and>
       rotate w (d_files d) (backup_path (w_filePath w) 1) = d_files d (w_filePath w) \<and>
       (\<forall>k. 1 \<le> k \<and> k < w_maxBackups w \<and> d_files d (backup_path (w_filePath w) k) \<noteq> None
          \<longrightarrow> rotate w (d_files d) (backup_path (w_filePath w) (k + 1)) =
               d_files d (backup_path (w_filePath w) k)) \<and>
       (\<forall>q. q \<noteq> w_filePath w \<and> (\<forall>j. q \<noteq> backup_path (w_filePath w) j)
          \<longrightarrow> rotate w (d_files d) q = d_files d q) \<and>
       (d_appends d = [] \<longrightarrow>
          d_files (complete_append (snd (flush w d))) (w_filePath w) =
            Some (chunk_of (w_buffer w)))) \<and>
    (\<forall>fs cs. (\<forall>i. fs (backup_path (w_filePath w) i) = None) \<and>
             length cs = Suc (w_maxBackups w) \<longrightarrow>
        (\<forall>i. (rotations w cs fs (backup_path (w_filePath w) i) \<noteq> None) =
               (1 \<le> i \<and> i \<le> w_maxBackups w)) \<and>
        (\<forall>i. 1 \<le> i \<and> i \<le> w_maxBackups w \<longrightarrow>
               rotations w cs fs (backup_path (w_filePath w) i) =
                 Some (cs ! (Suc (w_maxBackups w) - i))) \<and>
        rotations w cs fs (w_filePath w) = None)"
proof (intro conjI impI allI)
  note fl = flush_nonempty[OF assms(1), of d]
  show "fst (flush w d) = w\<lparr>w_buffer := []\<rparr>" by (simp add: fl)
  show "d_appends (snd (flush w d)) = d_appends d @ [(w_filePath w, chunk_of (w_buffer w))]"
    by (simp add: fl)
  show "d_files (snd (flush w d)) = d_files d" if "\<not> at_threshold w (d_files d)"
    using that by (simp add: fl)
  show "d_files (snd (flush w d)) = rotate w (d_files d)" if "at_threshold w (d_files d)"
    using that by (simp add: fl)
  show ex: "d_files d (w_filePath w) \<noteq> None" if "at_threshold w (d_files d)"
    using that assms(3) by (rule at_threshold_exists[rotated])
  show "rotate w (d_files d) (w_filePath w) = None" if "at_threshold w (d_files d)"
    using rotate_active(1)[of "d_files d" w] ex[OF that] by simp
  show "rotate w (d_files d) (backup_path (w_filePath w) 1) = d_files d (w_filePath w)"
    if "at_threshold w (d_files d)"
    using rotate_active(2)[of "d_files d" w] ex[OF that] by simp
  show "rotate w (d_files d) (backup_path (w_filePath w) (k + 1)) =
               d_files d (backup_path (w_filePath w) k)"
    if "at_threshold w (d_files d)"
      and "1 \<le> k \<and> k < w_maxBackups w \<and> d_files d (backup_path (w_filePath w) k) \<noteq> None"
    for k
    using rotate_slot[of "d_files d" w "k + 1"] ex[OF that(1)] that(2) by simp
  show "rotate w (d_files d) q = d_files d q"
    if "at_threshold w (d_files d)"
      and "q \<noteq> w_filePath w \<and> (\<forall>j. q \<noteq> backup_path (w_filePath w) j)" for q
    using rotate_other[of q w "d_files d"] that(2) by simp
  show "d_files (complete_append (snd (flush w d))) (w_filePath w) =
            Some (chunk_of (w_buffer w))"
    if "at_threshold w (d_files d)" and "d_appends d = []"
    using that rotate_active(1)[of "d_files d" w] ex[OF that(1)]
    by (simp add: fl complete_append_def)
next
  fix fs :: files and cs :: "string list" and i :: nat
  assume h: "(\<forall>i. fs (backup_path (w_filePath w) i) = None) \<and> length cs = Suc (w_maxBackups w)"
  then have none: "\<forall>i. fs (backup_path (w_filePath w) i) = None" by simp
  note sl = rotations_slots[OF assms(2) none, of cs]
  show "(rotations w cs fs (backup_path (w_filePath w) i) \<noteq> None) =
               (1 \<le> i \<and> i \<le> w_maxBackups w)"
    using h by (simp add: sl)
  show "rotations w cs fs (backup_path (w_filePath w) i) =
                 Some (cs ! (Suc (w_maxBackups w) - i))"
    if "1 \<le> i \<and> i \<le> w_maxBackups w"
    using h that by (simp add: sl)
next
  fix fs :: files and cs :: "string list"
  assume h: "(\<forall>i. fs (backup_path (w_filePath w) i) = None) \<and> length cs = Suc (w_maxBackups w)"
  then have "cs \<noteq> []" by auto
  then show "rotations w cs fs (w_filePath w) = None" by (rule rotations_active)
qed

lemma show_nat_digit: "n < 10 \<Longrightarrow> show_nat n = [''0123456789'' ! n]"
  by (simp add: show_nat.simps[of n] digit_char_def)

lemma show_nat_digits:
  "show_nat 1 = ''1''" "show_nat 2 = ''2''" "show_nat 3 = ''3''" "show_nat 4 = ''4''"
  "show_nat 5 = ''5''" "show_nat 6 = ''6''" "show_nat (Suc 0) = ''1''"
  by (simp_all add: show_nat_digit)

lemma length_five_megabytes: "length five_megabytes = 5242880"
  unfolding five_megabytes_def by (rule length_replicate)

lemma demo_writer_fields:
  "w_filePath demo_writer = ''logs/app.log''" "w_maxMB demo_writer = 5"
  "w_maxBackups demo_writer = 5" "w_buffer demo_writer = [''first line'', ''second line'']"
  "w_writing demo_writer = False"
  by (simp_all add: demo_writer_def rfw_write_def RotatingFileWriter_new_def)

theorem flush_drains_and_rotates_once_witness:
  "w_buffer (fst (flush demo_writer demo_disk)) = [] \<and>
   d_appends (snd (flush demo_writer demo_disk)) =
     [(''logs/app.log'', ''first line'' @ [CHR 0x0A] @ ''second line'' @ [CHR 0x0A])] \<and>
   d_files (snd (flush demo_writer demo_disk)) ''logs/app.log'' = None \<and>
   d_files (snd (flush demo_writer demo_disk)) ''logs/app.log.1'' =
     Some five_megabytes \<and>
   d_files (snd (flush demo_writer demo_disk)) ''logs/app.log.2'' = Some ''older'' \<and>
   d_files (complete_append (snd (flush demo_writer demo_disk))) ''logs/app.log'' =
     Some (''first line'' @ [CHR 0x0A] @ ''second line'' @ [CHR 0x0A]) \<and>
   rotations demo_writer [''c0'', ''c1'', ''c2'', ''c3'', ''c4'', ''c5''] Map.empty
     ''logs/app.log.1'' = Some ''c5'' \<and>
   rotations demo_writer [''c0'', ''c1'', ''c2'', ''c3'', ''c4'', ''c5''] Map.empty
     ''logs/app.log.5'' = Some ''c1'' \<and>
   rotations demo_writer [''c0'', ''c1'', ''c2'', ''c3'', ''c4'', ''c5''] Map.empty
     ''logs/app.log.6'' = None"
proof -
  let ?cs = "[''c0'', ''c1'', ''c2'', ''c3'', ''c4'', ''c5'']"
  have ne: "w_buffer demo_writer \<noteq> []" by (simp add: demo_writer_fields)
  have mb: "1 \<le> w_maxBackups demo_writer" "1 \<le> w_maxMB demo_writer"
    by (simp_all add: demo_writer_fields)
  note t = flush_drains_and_rotates_once[OF ne mb, of demo_disk]
  have bp: "backup_path ''logs/app.log'' 1 = ''logs/app.log.1''"
    "backup_path ''logs/app.log'' 2 = ''logs/app.log.2''"
    "backup_path ''logs/app.log'' 5 = ''logs/app.log.5''"
    "backup_path ''logs/app.log'' 6 = ''logs/app.log.6''"
    "backup_path ''logs/app.log'' (Suc 0) = ''logs/app.log.1''"
    "backup_path ''logs/app.log'' (1 + 1) = ''logs/app.log.2''"
    by (simp_all add: backup_path_def show_nat_digits show_nat_digit)
  have dd: "d_files demo_disk ''logs/app.log'' = Some five_megabytes"
    "d_files demo_disk ''logs/app.log.1'' = Some ''older''"
    by (simp_all add: demo_disk_def)
  have th: "at_threshold demo_writer (d_files demo_disk)"
    by (simp add: at_threshold_def file_size_def demo_disk_def demo_writer_fields
        length_five_megabytes)
  have ap: "d_appends demo_disk = []" by (simp add: demo_disk_def)
  have ch: "chunk_of (w_buffer demo_writer) =
      ''first line'' @ [CHR 0x0A] @ ''second line'' @ [CHR 0x0A]"
    by (simp add: chunk_of_def demo_writer_fields)
  have a: "w_buffer (fst (flush demo_writer demo_disk)) = []"
    using t by simp
  have b: "d_appends (snd (flush demo_writer demo_disk)) =
      [(''logs/app.log'', ''first line'' @ [CHR 0x0A] @ ''second line'' @ [CHR 0x0A])]"
    using t ap ch by (simp add: demo_writer_fields)
  have fl: "d_files (snd (flush demo_writer demo_disk)) = rotate demo_writer (d_files demo_disk)"
    using t th by blast
  have c: "rotate demo_writer (d_files demo_disk) (w_filePath demo_writer) = None"
    using t th by blast
  have d: "rotate demo_writer (d_files demo_disk) (backup_path (w_filePath demo_writer) 1) =
      d_files demo_disk (w_filePath demo_writer)"
    using t th by blast
  have k1: "1 \<le> (1::nat) \<and> 1 < w_maxBackups demo_writer \<and>
      d_files demo_disk (backup_path (w_filePath demo_writer) 1) \<noteq> None"
    by (simp add: demo_writer_fields dd bp)
  have e: "rotate demo_writer (d_files demo_disk) (backup_path (w_filePath demo_writer) (1 + 1)) =
      d_files demo_disk (backup_path (w_filePath demo_writer) 1)"
    using t th k1 by blast
  have f: "d_files (complete_append (snd (flush demo_writer demo_disk))) (w_filePath demo_writer)
      = Some (chunk_of (w_buffer demo_writer))"
    using t th ap by blast
  note rot = t[THEN conjunct2, THEN conjunct2, THEN conjunct2, THEN conjunct2,
      rule_format, of Map.empty ?cs]
  have none: "(\<forall>i. (Map.empty :: files) (backup_path (w_filePath demo_writer) i) = None) \<and>
      length ?cs = Suc (w_maxBackups demo_writer)"
    by (simp add: demo_writer_fields)
  note r = rot[OF none]
  have r1: "rotations demo_writer ?cs Map.empty ''logs/app.log.1'' = Some ''c5''"
    using r[THEN conjunct2, THEN conjunct1, rule_format, of 1]
    by (simp add: demo_writer_fields bp)
  have r5: "rotations demo_writer ?cs Map.empty ''logs/app.log.5'' = Some ''c1''"
    using r[THEN conjunct2, THEN conjunct1, rule_format, of 5]
    by (simp add: demo_writer_fields bp)
  have r6: "rotations demo_writer ?cs Map.empty ''logs/app.log.6'' = None"
    using r[THEN conjunct1, rule_format, of 6] by (simp add: demo_writer_fields bp)
  have c': "d_files (snd (flush demo_writer demo_disk)) ''logs/app.log'' = None"
    using c by (simp add: fl demo_writer_fields)
  have d': "d_files (snd (flush demo_writer demo_disk)) ''logs/app.log.1'' = Some five_megabytes"
    using d by (simp add: fl demo_writer_fields bp dd)
  have e': "d_files (snd (flush demo_writer demo_disk)) ''logs/app.log.2'' = Some ''older''"
    using e unfolding fl demo_writer_fields bp dd .
  have f': "d_files (complete_append (snd (flush demo_writer demo_disk))) ''logs/app.log'' =
     Some (''first line'' @ [CHR 0x0A] @ ''second line'' @ [CHR 0x0A])"
    using f by (simp only: ch demo_writer_fields(1))
  show ?thesis
    by (intro conjI a b c' d' e' f' r1 r5 r6)
qed

subsection \<open>The busy flag\<close>

lemma flush_keeps_writing_flag: "w_writing (fst (flush w d)) = w_writing w"
  by (simp add: flush_def Let_def)

lemma flush_ignores_writing_flag:
  "snd (flush (w\<lparr>w_writing := b\<rparr>) d) = snd (flush w d)"
  by (simp add: flush_def Let_def rotate_def at_threshold_def)

text \<open>
  Claim C9 does not hold of the code. \<^verbatim>\<open>_writing\<close> is set to \<^verbatim>\<open>false\<close> when the writer is
  built; \<open>flush\<close> neither sets it nor looks at it. A flush that finds lines pending
  starts its \<^verbatim>\<open>appendFile\<close> at once, whatever is in flight. The periodic flush of the two
  pending lines, followed by the flush at exit of the line logged at exit before the
  first append has completed, leaves two appends to the same file in flight together.
\<close>

theorem flush_overlaps_unfinished_append:
  "w_writing (fst (flush w d)) = w_writing w \<and>
   snd (flush (w\<lparr>w_writing := True\<rparr>) d) = snd (flush w d) \<and>
   d_appends (snd (flush demo_writer empty_disk)) =
     [(''logs/app.log'', ''first line'' @ [CHR 0x0A] @ ''second line'' @ [CHR 0x0A])] \<and>
   w_writing (fst (flush demo_writer empty_disk)) = False \<and>
   d_appends (snd (flush (rfw_write ''Process exiting'' (fst (flush demo_writer empty_disk)))
                        (snd (flush demo_writer empty_disk)))) =
     [(''logs/app.log'', ''first line'' @ [CHR 0x0A] @ ''second line'' @ [CHR 0x0A]),
      (''logs/app.log'', ''Process exiting'' @ [CHR 0x0A])]"
  by (simp add: flush_keeps_writing_flag flush_ignores_writing_flag)
     (simp add: flush_def Let_def demo_writer_fields empty_disk_def at_threshold_def
        file_size_def chunk_of_def rfw_write_def)

subsection \<open>The logger: writes below the minimum level\<close>

lemma Logger_write_dropped:
  assumes "LOG_LEVELS levelName = None \<or>
           (\<exists>level. LOG_LEVELS levelName = Some level \<and> level < l_level lg)"
  shows "Logger_write rt clock ts levelName message meta (lg # ancestors) = lg # ancestors"
  using assms by (auto simp: Logger_write_def)

lemma Logger_write_passed:
  assumes "LOG_LEVELS levelName = Some level" and "l_level lg \<le> level"
  shows "Logger_write rt clock ts levelName message meta (lg # ancestors) =
     (let entry = buildEntry rt ts level levelName message meta (l_context lg)
      in write_files rt entry (40 \<le> level)
           (console_write entry level
              (lg\<lparr>l_ring := push entry (l_ring lg),
                  l_metrics := incrementLevel levelName (l_metrics lg),
                  l_alerts := evaluate quiet clock entry (l_alerts lg),
                  l_emitted := l_emitted lg @ [entry]\<rparr>))
         # forward rt clock entry ancestors)"
  using assms by (simp add: Logger_write_def Let_def js_ge_def LOG_LEVELS_values)

lemma write_files_fields [simp]:
  "l_ring (write_files rt e b lg) = l_ring lg"
  "l_metrics (write_files rt e b lg) = l_metrics lg"
  "l_alerts (write_files rt e b lg) = l_alerts lg"
  "l_emitted (write_files rt e b lg) = l_emitted lg"
  "l_logToFile (write_files rt e b lg) = l_logToFile lg"
  by (simp_all add: write_files_def)

lemma console_write_fields [simp]:
  "l_ring (console_write e lv lg) = l_ring lg"
  "l_metrics (console_write e lv lg) = l_metrics lg"
  "l_alerts (console_write e lv lg) = l_alerts lg"
  "l_emitted (console_write e lv lg) = l_emitted lg"
  "l_logToFile (console_write e lv lg) = l_logToFile lg"
  "l_textWriter (console_write e lv lg) = l_textWriter lg"
  "l_jsonWriter (console_write e lv lg) = l_jsonWriter lg"
  "l_errorWriter (console_write e lv lg) = l_errorWriter lg"
  by (simp_all add: console_write_def Let_def)

lemma warn_logger_fields:
  "l_level (warn_logger rt now) = 30" "l_context (warn_logger rt now) = ''app''"
  "l_logToFile (warn_logger rt now) = True"
  "l_ring (warn_logger rt now) = RingBuffer_new 2000"
  "l_metrics (warn_logger rt now) = MetricsCollector_new now"
  "l_alerts (warn_logger rt now) = AlertManager_new"
  "l_emitted (warn_logger rt now) = []"
  "map_option w_buffer (l_textWriter (warn_logger rt now)) = Some []"
  "map_option w_buffer (l_jsonWriter (warn_logger rt now)) = Some []"
  "map_option w_buffer (l_errorWriter (warn_logger rt now)) = Some []"
  by (simp_all add: warn_logger_def Logger_new_def no_logger_opts_def bool_or_def str_or_def
      RotatingFileWriter_new_def Let_def)

lemma buffer_rfw_write:
  "map_option w_buffer (map_option (rfw_write line) w) =
   map_option (\<lambda>b. b @ [line]) (map_option w_buffer w)"
  by (cases w) (simp_all add: rfw_write_def)

text \<open>
  Claim C2. A write whose level name is unknown or whose level is below the minimum
  level of the logger leaves the whole chain as it was: the ring buffer, the counters,
  the alert manager with its cooldowns, the writers with their buffers, and every
  ancestor. With the minimum level \<^verbatim>\<open>WARN\<close>, \<^verbatim>\<open>debug("a")\<close> changes nothing, and after
  \<^verbatim>\<open>warn("b")\<close> the ring buffer holds the one entry, the counter of \<^verbatim>\<open>WARN\<close> is 1 and
  every other counter 0, the text and the JSON writer have one line pending and the
  error writer none.
\<close>

theorem write_below_level_is_dropped:
  "(LOG_LEVELS levelName = None \<or>
      (\<exists>level. LOG_LEVELS levelName = Some level \<and> level < l_level lg)
    \<longrightarrow> Logger_write rt clock ts levelName message meta (lg # ancestors) = lg # ancestors) \<and>
   (let lg0 = warn_logger rt now;
        after = Logger_warn rt clock ts' ''b'' None (Logger_debug rt clock ts ''a'' None [lg0]);
        e = buildEntry rt ts' 30 ''WARN'' ''b'' None ''app''
    in Logger_debug rt clock ts ''a'' None [lg0] = [lg0] \<and>
       length after = 1 \<and>
       toArray (l_ring (hd after)) = [e] \<and>
       l_emitted (hd after) = [e] \<and>
       mc_counts (l_metrics lg0) =
         (\<lambda>l. if LOG_LEVELS l = None then None else Some 0) \<and>
       mc_counts (l_metrics (hd after)) = (mc_counts (l_metrics lg0))(''WARN'' \<mapsto> 1) \<and>
       map_option w_buffer (l_textWriter (hd after)) = Some [entryToText e False] \<and>
       map_option w_buffer (l_jsonWriter (hd after)) = Some [entryToJson rt e] \<and>
       map_option w_buffer (l_errorWriter (hd after)) = Some [])"
proof (intro conjI impI)
  assume "LOG_LEVELS levelName = None \<or>
      (\<exists>level. LOG_LEVELS levelName = Some level \<and> level < l_level lg)"
  then show "Logger_write rt clock ts levelName message meta (lg # ancestors) = lg # ancestors"
    by (rule Logger_write_dropped)
next
  let ?lg0 = "warn_logger rt now"
  let ?e = "buildEntry rt ts' 30 ''WARN'' ''b'' None ''app''"
  have d: "Logger_debug rt clock ts ''a'' None [?lg0] = [?lg0]"
    unfolding Logger_debug_def
    by (rule Logger_write_dropped) (simp add: LOG_LEVELS_values warn_logger_fields)
  have w: "Logger_warn rt clock ts' ''b'' None [?lg0] =
     [write_files rt ?e False
           (console_write ?e 30
              (?lg0\<lparr>l_ring := push ?e (l_ring ?lg0),
                  l_metrics := incrementLevel ''WARN'' (l_metrics ?lg0),
                  l_alerts := evaluate quiet clock ?e (l_alerts ?lg0),
                  l_emitted := l_emitted ?lg0 @ [?e]\<rparr>))]"
    unfolding Logger_warn_def
    using Logger_write_passed[of "''WARN''" 30 ?lg0 rt clock ts' "''b''" None "[]"]
    by (simp add: LOG_LEVELS_values warn_logger_fields Let_def)
  have c0: "mc_counts (MetricsCollector_new now) =
       (\<lambda>l. if LOG_LEVELS l = None then None else Some 0)"
    by (auto simp: MetricsCollector_new_def split: option.splits)
  show "let lg0 = warn_logger rt now;
        after = Logger_warn rt clock ts' ''b'' None (Logger_debug rt clock ts ''a'' None [lg0]);
        e = buildEntry rt ts' 30 ''WARN'' ''b'' None ''app''
    in Logger_debug rt clock ts ''a'' None [lg0] = [lg0] \<and>
       length after = 1 \<and>
       toArray (l_ring (hd after)) = [e] \<and>
       l_emitted (hd after) = [e] \<and>
       mc_counts (l_metrics lg0) =
         (\<lambda>l. if LOG_LEVELS l = None then None else Some 0) \<and>
       mc_counts (l_metrics (hd after)) = (mc_counts (l_metrics lg0))(''WARN'' \<mapsto> 1) \<and>
       map_option w_buffer (l_textWriter (hd after)) = Some [entryToText e False] \<and>
       map_option w_buffer (l_jsonWriter (hd after)) = Some [entryToJson rt e] \<and>
       map_option w_buffer (l_errorWriter (hd after)) = Some []"
    unfolding Let_def d w
    by (simp add: warn_logger_fields c0 toArray_def push_def RingBuffer_new_def
        incrementLevel_def LOG_LEVELS_values write_files_def buffer_rfw_write
        AlertManager_new_def)
qed

theorem write_below_level_is_dropped_witness:
  "Logger_write demo_runtime (\<lambda>_. demo_now) demo_date ''DEBUG'' ''a'' None
     [warn_logger demo_runtime demo_now] = [warn_logger demo_runtime demo_now] \<and>
   Logger_write demo_runtime (\<lambda>_. demo_now) demo_date ''VERBOSE'' ''a'' None
     [warn_logger demo_runtime demo_now] = [warn_logger demo_runtime demo_now]"
proof -
  have h1: "LOG_LEVELS ''DEBUG'' = None \<or>
      (\<exists>level. LOG_LEVELS ''DEBUG'' = Some level \<and>
         level < l_level (warn_logger demo_runtime demo_now))"
    by (simp add: LOG_LEVELS_values warn_logger_fields)
  have h2: "LOG_LEVELS ''VERBOSE'' = None \<or>
      (\<exists>level. LOG_LEVELS ''VERBOSE'' = Some level \<and>
         level < l_level (warn_logger demo_runtime demo_now))"
    by (simp add: LOG_LEVELS_def)
  show ?thesis
    using write_below_level_is_dropped[of "''DEBUG''" "warn_logger demo_runtime demo_now"
        demo_runtime "\<lambda>_. demo_now" demo_date "''a''" None "[]", THEN conjunct1] h1
      write_below_level_is_dropped[of "''VERBOSE''" "warn_logger demo_runtime demo_now"
        demo_runtime "\<lambda>_. demo_now" demo_date "''a''" None "[]", THEN conjunct1] h2
    by blast
qed

subsection \<open>The logger: a child forwards to its parent\<close>

lemma length_forward [simp]: "length (forward rt clock e chain) = length chain"
  by (induction chain) (simp_all add: Let_def)


text \<open>The context of a logger that the constructor builds is never empty, and neither
  is that of the child at the head of the chain that \<open>Logger_child\<close> returns.\<close>

lemma Logger_new_context: "l_context (Logger_new rt now opts) \<noteq> []"
  by (auto simp: Logger_new_def str_or_def Let_def split: option.splits)

lemma Logger_child_context:
  "l_context (hd (Logger_child rt now ctx extra (parent # ancestors))) \<noteq> []"
  by (simp add: Logger_child_def Logger_new_context)

text \<open>The counters of a fresh collector exist for the eight level names, and
  \<open>incrementLevel\<close> keeps the names that have a counter.\<close>

lemma MetricsCollector_new_counts:
  "mc_counts (MetricsCollector_new now) l = (if LOG_LEVELS l = None then None else Some 0)"
  by (auto simp: MetricsCollector_new_def split: option.splits)

lemma incrementLevel_dom: "dom (mc_counts (incrementLevel l mc)) = dom (mc_counts mc)"
  by (auto simp: incrementLevel_def split: option.splits)

lemma buildEntry_fields [simp]:
  "e_level (buildEntry rt ts level levelName message meta context) = levelName"
  "e_levelCode (buildEntry rt ts level levelName message meta context) = level"
  "e_context (buildEntry rt ts level levelName message meta context) =
     (if context = [] then ''app'' else context)"
  "e_meta (buildEntry rt ts level levelName message meta context) = meta"
  by (simp_all add: buildEntry_def)









end
